theory Spec2Isabelle
  imports Main "HOL-Library.Word"
begin

section \<open>The ResultStore writer: data model\<close>

text \<open>
  The package \<^verbatim>\<open>writer\<close> uploads an invocation and its resources to ResultStore
  through the batch API. The model follows the Go source function by function. What the
  source takes from elsewhere (the gRPC status codes, the generated protocol messages, the
  random UUID source, the remote service, the clock behind the context deadline) appears
  as data: the codes with their numeric values, the messages as records holding the
  fields the writer touches, and the outside world as a record of oracles.
\<close>

subsection \<open>gRPC status codes\<close>

text \<open>\<^verbatim>\<open>codes.Code\<close> is a \<^verbatim>\<open>uint32\<close>; the named codes are the values 0 to 16.\<close>

type_synonym code = "32 word"

definition codes_OK :: code where "codes_OK = 0"
definition codes_Canceled :: code where "codes_Canceled = 1"
definition codes_Unknown :: code where "codes_Unknown = 2"
definition codes_InvalidArgument :: code where "codes_InvalidArgument = 3"
definition codes_DeadlineExceeded :: code where "codes_DeadlineExceeded = 4"
definition codes_NotFound :: code where "codes_NotFound = 5"
definition codes_AlreadyExists :: code where "codes_AlreadyExists = 6"
definition codes_PermissionDenied :: code where "codes_PermissionDenied = 7"
definition codes_ResourceExhausted :: code where "codes_ResourceExhausted = 8"
definition codes_FailedPrecondition :: code where "codes_FailedPrecondition = 9"
definition codes_Aborted :: code where "codes_Aborted = 10"
definition codes_OutOfRange :: code where "codes_OutOfRange = 11"
definition codes_Unimplemented :: code where "codes_Unimplemented = 12"
definition codes_Internal :: code where "codes_Internal = 13"
definition codes_Unavailable :: code where "codes_Unavailable = 14"
definition codes_DataLoss :: code where "codes_DataLoss = 15"
definition codes_Unauthenticated :: code where "codes_Unauthenticated = 16"

subsection \<open>Resources and upload requests\<close>

text \<open>
  Each resource message carries a pointer to its identifier message, which may be nil
  (\<open>None\<close>), and further fields the writer never reads, kept as one opaque body.
\<close>

record Configuration_Id =
  cfg_InvocationId :: string
  cfg_ConfigurationId :: string

record Target_Id =
  tgt_InvocationId :: string
  tgt_TargetId :: string

record ConfiguredTarget_Id =
  ct_InvocationId :: string
  ct_TargetId :: string
  ct_ConfigurationId :: string

record Action_Id =
  act_InvocationId :: string
  act_TargetId :: string
  act_ConfigurationId :: string
  act_ActionId :: string

record Configuration =
  cfg_Id :: "Configuration_Id option"
  cfg_body :: string

record Target =
  tgt_Id :: "Target_Id option"
  tgt_body :: string

record ConfiguredTarget =
  ct_Id :: "ConfiguredTarget_Id option"
  ct_body :: string

record Action =
  act_Id :: "Action_Id option"
  act_body :: string

text \<open>
  The generated getters are safe on a nil receiver: they return the empty string.
  A plain field selection through a nil pointer is a run-time panic instead.
\<close>

fun GetTargetId_Target :: "Target_Id option \<Rightarrow> string" where
  "GetTargetId_Target None = []"
| "GetTargetId_Target (Some i) = tgt_TargetId i"

fun GetTargetId_ConfiguredTarget :: "ConfiguredTarget_Id option \<Rightarrow> string" where
  "GetTargetId_ConfiguredTarget None = []"
| "GetTargetId_ConfiguredTarget (Some i) = ct_TargetId i"

fun GetConfigurationId_ConfiguredTarget :: "ConfiguredTarget_Id option \<Rightarrow> string" where
  "GetConfigurationId_ConfiguredTarget None = []"
| "GetConfigurationId_ConfiguredTarget (Some i) = ct_ConfigurationId i"

fun GetTargetId_Action :: "Action_Id option \<Rightarrow> string" where
  "GetTargetId_Action None = []"
| "GetTargetId_Action (Some i) = act_TargetId i"

fun GetConfigurationId_Action :: "Action_Id option \<Rightarrow> string" where
  "GetConfigurationId_Action None = []"
| "GetConfigurationId_Action (Some i) = act_ConfigurationId i"

fun GetActionId_Action :: "Action_Id option \<Rightarrow> string" where
  "GetActionId_Action None = []"
| "GetActionId_Action (Some i) = act_ActionId i"

record UploadRequest_Id =
  TargetId :: string
  ConfigurationId :: string
  ActionId :: string

datatype UploadOperation =
  UPLOAD_OPERATION_UNSPECIFIED | CREATE | UPDATE | MERGE | FINALIZE

datatype Resource =
  UploadRequest_Invocation
| UploadRequest_Configuration Configuration
| UploadRequest_Target Target
| UploadRequest_ConfiguredTarget ConfiguredTarget
| UploadRequest_Action Action

record UploadRequest =
  req_Id :: "UploadRequest_Id option"
  req_UploadOperation :: UploadOperation
  req_Resource :: Resource

subsection \<open>Errors\<close>

text \<open>
  A Go \<^verbatim>\<open>error\<close> is \<open>None\<close> (nil) or one of: an error carrying a gRPC status, the
  retry engine's \<^verbatim>\<open>ErrWaitTimeout\<close>, the context's error (deadline exceeded or
  cancelled), the writer's own error for an append after finalize, or any other error.
  A run-time panic is a separate outcome, not an error value.
\<close>

datatype error =
  StatusError code
| ErrWaitTimeout
| ContextError
| AfterFinalized UploadRequest
| OtherError string

datatype panic = NilPointerDereference

subsection \<open>Error classification\<close>

text \<open>
  \<^verbatim>\<open>status.FromError\<close> gives a nil status for a nil error, the carried status for
  a status error, and a status with code Unknown for every other error;
  \<^verbatim>\<open>Code\<close> of a nil status is OK.
\<close>

fun FromError :: "error option \<Rightarrow> code option" where
  "FromError None = None"
| "FromError (Some (StatusError c)) = Some c"
| "FromError (Some e) = Some codes_Unknown"

fun Code :: "code option \<Rightarrow> code" where
  "Code None = codes_OK"
| "Code (Some c) = c"

definition IsPermanentError :: "error option \<Rightarrow> bool" where
  "IsPermanentError err =
     (let c = Code (FromError err) in
      if c = codes_AlreadyExists then True
      else if c = codes_NotFound then True
      else if c = codes_InvalidArgument then True
      else if c = codes_FailedPrecondition then True
      else if c = codes_Unimplemented then True
      else if c = codes_PermissionDenied then True
      else False)"

definition IsAlreadyExistsErr :: "error option \<Rightarrow> bool" where
  "IsAlreadyExistsErr err = (Code (FromError err) = codes_AlreadyExists)"

definition onlyPermanentError :: "error option \<Rightarrow> error option" where
  "onlyPermanentError err = (if IsPermanentError err then err else None)"

subsection \<open>The writer and the world around it\<close>

text \<open>
  The \<^verbatim>\<open>writer\<close> struct. Its logger only prints and is left out; its client is
  the remote service of the world below.
\<close>

record writer =
  invID :: string
  authToken :: string
  resumeToken :: string
  updates :: "UploadRequest list"
  finalized :: bool

text \<open>The invocation payload is opaque to the writer.\<close>

type_synonym Invocation = string

record CreateInvocationRequest =
  ci_InvocationId :: string
  ci_Invocation :: Invocation
  ci_AuthorizationToken :: string
  ci_InitialResumeToken :: string

record TouchInvocationRequest =
  ti_Name :: string
  ti_AuthorizationToken :: string

record GetInvocationUploadMetadataRequest =
  gm_Name :: string
  gm_AuthorizationToken :: string

record UploadBatchRequest =
  ub_Parent :: string
  ub_ResumeToken :: string
  ub_NextResumeToken :: string
  ub_AuthorizationToken :: string
  ub_UploadRequests :: "UploadRequest list"

text \<open>The four methods of \<^verbatim>\<open>ResultStoreBatchClient\<close>, each with its request.\<close>

datatype rpc =
  CreateInvocation CreateInvocationRequest
| TouchInvocation TouchInvocationRequest
| GetInvocationUploadMetadata GetInvocationUploadMetadataRequest
| UploadBatch UploadBatchRequest

text \<open>
  A remote call returns a response or a non-nil error. The only response field the writer
  reads is the resume token of the upload metadata; the response carries it as a string,
  which the other three calls ignore.
\<close>

datatype reply = Response string | RpcError error

text \<open>
  Everything outside the writer:
  \<^item> \<open>service n\<close> is what the remote service answers to the \<open>n\<close>-th remote call
    the process makes (counting from 0);
  \<^item> \<open>deadline n\<close> tells whether the context is done (deadline passed or cancelled)
    when it is looked at after \<open>n\<close> remote calls;
  \<^item> \<open>tokens n\<close> is the \<open>n\<close>-th value that \<^verbatim>\<open>resumeToken()\<close> returns (the
    base64 text of a new random UUID), \<open>generated\<close> counts the values taken so far;
  \<^item> \<open>trace\<close> lists the remote calls made so far, oldest first.
  The three oracles are arbitrary functions, so a theorem about every world covers every
  behaviour of the service, the clock and the random source.
\<close>

record world =
  service :: "nat \<Rightarrow> reply"
  deadline :: "nat \<Rightarrow> bool"
  tokens :: "nat \<Rightarrow> string"
  generated :: nat
  trace :: "rpc list"

type_synonym state = "writer \<times> world"

definition resumeToken_func :: "world \<Rightarrow> string \<times> world" where
  "resumeToken_func wd = (tokens wd (generated wd), wd\<lparr>generated := Suc (generated wd)\<rparr>)"

text \<open>A remote call: the service answers and the call is recorded.\<close>

definition remote_call :: "rpc \<Rightarrow> world \<Rightarrow> reply \<times> world" where
  "remote_call r wd = (service wd (length (trace wd)), wd\<lparr>trace := trace wd @ [r]\<rparr>)"

definition ctx_done :: "state \<Rightarrow> bool" where
  "ctx_done s = deadline (snd s) (length (trace (snd s)))"

subsection \<open>The retry engine\<close>

text \<open>\<^verbatim>\<open>batchSize\<close>, and the \<^verbatim>\<open>Steps\<close> field of \<^verbatim>\<open>rpcRetryBackoff\<close>.\<close>

definition batchSize :: nat where "batchSize = 100"

definition rpcRetrySteps :: nat where "rpcRetrySteps = 8"

text \<open>
  Modelled from the spec: the retry engine of section 4.2, which the source takes from the
  library function \<^verbatim>\<open>wait.ExponentialBackoffWithContext\<close> (not part of this
  repository). With \<open>n\<close> steps left it looks at the context and returns the context's
  error when it is done; otherwise it runs the condition once. An error from the
  condition ends the loop with that error, \<open>ok\<close> without error ends it with nil, and
  otherwise the loop sleeps and goes on with one step fewer. Out of steps, it returns
  the library's \<^verbatim>\<open>ErrWaitTimeout\<close>: the conditions of this package hand the
  engine nil for a transient error, so no transient error reaches it. The condition runs
  at most \<open>n\<close> times.
  The sleeps (100ms doubling, capped at 30s, 20 percent jitter) are not modelled: with 8
  steps the uncapped delay stays below the cap, so the cap never cuts the number of steps,
  and the passing of time shows only through \<open>deadline\<close>.
\<close>

fun ExponentialBackoffWithContext ::
  "nat \<Rightarrow> (state \<Rightarrow> (bool \<times> error option) \<times> state) \<Rightarrow> state \<Rightarrow> error option \<times> state" where
  "ExponentialBackoffWithContext 0 condition s = (Some ErrWaitTimeout, s)"
| "ExponentialBackoffWithContext (Suc n) condition s =
     (if ctx_done s then (Some ContextError, s)
      else
        (case condition s of
          ((ok, Some e), s') \<Rightarrow> (Some e, s')
        | ((ok, None), s') \<Rightarrow>
            if ok then (None, s') else ExponentialBackoffWithContext n condition s'))"

subsection \<open>Opening a writer\<close>

definition createInvocationRequest :: "writer \<Rightarrow> Invocation \<Rightarrow> CreateInvocationRequest" where
  "createInvocationRequest w invocation =
     \<lparr>ci_InvocationId = invID w, ci_Invocation = invocation,
      ci_AuthorizationToken = authToken w, ci_InitialResumeToken = resumeToken w\<rparr>"

definition invocationName :: "writer \<Rightarrow> string" where
  "invocationName w = ''invocations/'' @ invID w"

definition touchInvocationRequest :: "writer \<Rightarrow> TouchInvocationRequest" where
  "touchInvocationRequest w =
     \<lparr>ti_Name = invocationName w, ti_AuthorizationToken = authToken w\<rparr>"

definition uploadMetadataName :: "writer \<Rightarrow> string" where
  "uploadMetadataName w = ''invocations/'' @ invID w @ ''/uploadMetadata''"

definition getInvocationUploadMetadataRequest ::
  "writer \<Rightarrow> GetInvocationUploadMetadataRequest" where
  "getInvocationUploadMetadataRequest w =
     \<lparr>gm_Name = uploadMetadataName w, gm_AuthorizationToken = authToken w\<rparr>"

text \<open>The condition functions passed to the retry engine, one per remote call.\<close>

definition createInvocation_attempt ::
  "Invocation \<Rightarrow> state \<Rightarrow> (bool \<times> error option) \<times> state" where
  "createInvocation_attempt invocation s =
     (case remote_call (CreateInvocation (createInvocationRequest (fst s) invocation)) (snd s) of
       (RpcError e, wd) \<Rightarrow> ((False, onlyPermanentError (Some e)), (fst s, wd))
     | (Response x, wd) \<Rightarrow> ((True, None), (fst s, wd)))"

definition createInvocation :: "Invocation \<Rightarrow> state \<Rightarrow> error option \<times> state" where
  "createInvocation invocation s =
     ExponentialBackoffWithContext rpcRetrySteps (createInvocation_attempt invocation) s"

definition touchInvocation_attempt :: "state \<Rightarrow> (bool \<times> error option) \<times> state" where
  "touchInvocation_attempt s =
     (case remote_call (TouchInvocation (touchInvocationRequest (fst s))) (snd s) of
       (RpcError e, wd) \<Rightarrow> ((False, onlyPermanentError (Some e)), (fst s, wd))
     | (Response x, wd) \<Rightarrow> ((True, None), (fst s, wd)))"

definition touchInvocation :: "state \<Rightarrow> error option \<times> state" where
  "touchInvocation s = ExponentialBackoffWithContext rpcRetrySteps touchInvocation_attempt s"

definition retrieveResumeToken_attempt :: "state \<Rightarrow> (bool \<times> error option) \<times> state" where
  "retrieveResumeToken_attempt s =
     (case remote_call
             (GetInvocationUploadMetadata (getInvocationUploadMetadataRequest (fst s))) (snd s) of
       (RpcError e, wd) \<Rightarrow> ((False, onlyPermanentError (Some e)), (fst s, wd))
     | (Response tok, wd) \<Rightarrow> ((True, None), ((fst s)\<lparr>resumeToken := tok\<rparr>, wd)))"

definition retrieveResumeToken :: "state \<Rightarrow> error option \<times> state" where
  "retrieveResumeToken s =
     ExponentialBackoffWithContext rpcRetrySteps retrieveResumeToken_attempt s"

text \<open>
  \<^verbatim>\<open>New\<close> returns the writer or an error, never both; the world goes on either
  way. One context with one deadline covers the three calls.
\<close>

definition New :: "world \<Rightarrow> Invocation \<Rightarrow> string \<Rightarrow> string \<Rightarrow> (error + writer) \<times> world" where
  "New wd0 invocation invocation_id auth_token =
     (case resumeToken_func wd0 of
       (tok, wd1) \<Rightarrow>
         (case createInvocation invocation
                 (\<lparr>invID = invocation_id, authToken = auth_token, resumeToken = tok,
                   updates = [], finalized = False\<rparr>, wd1) of
           (None, s1) \<Rightarrow> (Inr (fst s1), snd s1)
         | (Some err, s1) \<Rightarrow>
             if \<not> IsAlreadyExistsErr (Some err) then (Inl err, snd s1)
             else
               (case touchInvocation s1 of
                 (touchErr, s2) \<Rightarrow>
                   if IsPermanentError touchErr then (Inl err, snd s2)
                   else
                     (case retrieveResumeToken s2 of
                       (Some err2, s3) \<Rightarrow> (Inl err2, snd s3)
                     | (None, s3) \<Rightarrow> (Inr (fst s3), snd s3)))))"

subsection \<open>Building upload requests\<close>

text \<open>
  Each builder takes a pointer to a resource (\<open>None\<close> is the nil pointer), copies the
  identifiers into the request's own identifier, clears the resource's identifier and
  wraps the resource. Selecting \<^verbatim>\<open>Id\<close> through a nil resource panics in all four;
  \<^verbatim>\<open>createConfigurationUploadRequest\<close> also selects the field
  \<^verbatim>\<open>ConfigurationId\<close> through \<^verbatim>\<open>c.Id\<close> directly, where the other three call
  getters. The resource is wrapped by pointer, so the caller's message loses its
  identifier as well; the model keeps the wrapped value only.
\<close>

definition createConfigurationUploadRequest :: "Configuration option \<Rightarrow> panic + UploadRequest" where
  "createConfigurationUploadRequest p =
     (case p of
       None \<Rightarrow> Inl NilPointerDereference
     | Some c \<Rightarrow>
         (case cfg_Id c of
           None \<Rightarrow> Inl NilPointerDereference
         | Some i \<Rightarrow>
             Inr \<lparr>req_Id = Some \<lparr>TargetId = [], ConfigurationId = cfg_ConfigurationId i,
                                 ActionId = []\<rparr>,
                  req_UploadOperation = CREATE,
                  req_Resource = UploadRequest_Configuration (c\<lparr>cfg_Id := None\<rparr>)\<rparr>))"

definition createTargetUploadRequest :: "Target option \<Rightarrow> panic + UploadRequest" where
  "createTargetUploadRequest p =
     (case p of
       None \<Rightarrow> Inl NilPointerDereference
     | Some t \<Rightarrow>
         Inr \<lparr>req_Id = Some \<lparr>TargetId = GetTargetId_Target (tgt_Id t), ConfigurationId = [],
                             ActionId = []\<rparr>,
              req_UploadOperation = CREATE,
              req_Resource = UploadRequest_Target (t\<lparr>tgt_Id := None\<rparr>)\<rparr>)"

definition createConfiguredTargetUploadRequest ::
  "ConfiguredTarget option \<Rightarrow> panic + UploadRequest" where
  "createConfiguredTargetUploadRequest p =
     (case p of
       None \<Rightarrow> Inl NilPointerDereference
     | Some ct \<Rightarrow>
         Inr \<lparr>req_Id = Some \<lparr>TargetId = GetTargetId_ConfiguredTarget (ct_Id ct),
                             ConfigurationId = GetConfigurationId_ConfiguredTarget (ct_Id ct),
                             ActionId = []\<rparr>,
              req_UploadOperation = CREATE,
              req_Resource = UploadRequest_ConfiguredTarget (ct\<lparr>ct_Id := None\<rparr>)\<rparr>)"

definition createActionUploadRequest :: "Action option \<Rightarrow> panic + UploadRequest" where
  "createActionUploadRequest p =
     (case p of
       None \<Rightarrow> Inl NilPointerDereference
     | Some a \<Rightarrow>
         Inr \<lparr>req_Id = Some \<lparr>TargetId = GetTargetId_Action (act_Id a),
                             ConfigurationId = GetConfigurationId_Action (act_Id a),
                             ActionId = GetActionId_Action (act_Id a)\<rparr>,
              req_UploadOperation = CREATE,
              req_Resource = UploadRequest_Action (a\<lparr>act_Id := None\<rparr>)\<rparr>)"

definition finalizeRequest :: UploadRequest where
  "finalizeRequest =
     \<lparr>req_Id = None, req_UploadOperation = FINALIZE, req_Resource = UploadRequest_Invocation\<rparr>"

subsection \<open>Appending and flushing\<close>

text \<open>
  \<^verbatim>\<open>uploadBatchRequest\<close> draws the next token, builds the request and stores the
  next token in the writer, all before any remote call.
\<close>

definition uploadBatchRequest ::
  "writer \<Rightarrow> UploadRequest list \<Rightarrow> world \<Rightarrow> UploadBatchRequest \<times> writer \<times> world" where
  "uploadBatchRequest w reqs wd =
     (case resumeToken_func wd of
       (nextToken, wd') \<Rightarrow>
         (\<lparr>ub_Parent = invocationName w, ub_ResumeToken = resumeToken w,
           ub_NextResumeToken = nextToken, ub_AuthorizationToken = authToken w,
           ub_UploadRequests = reqs\<rparr>,
          w\<lparr>resumeToken := nextToken\<rparr>, wd'))"

definition flushUpdates_attempt ::
  "UploadBatchRequest \<Rightarrow> state \<Rightarrow> (bool \<times> error option) \<times> state" where
  "flushUpdates_attempt b s =
     (case remote_call (UploadBatch b) (snd s) of
       (RpcError e, wd) \<Rightarrow>
         if IsPermanentError (Some e) then ((False, Some e), (fst s, wd))
         else ((False, None), (fst s, wd))
     | (Response x, wd) \<Rightarrow> ((True, None), ((fst s)\<lparr>updates := []\<rparr>, wd)))"

definition flushUpdates :: "state \<Rightarrow> error option \<times> state" where
  "flushUpdates s =
     (case uploadBatchRequest (fst s) (updates (fst s)) (snd s) of
       (b, w, wd) \<Rightarrow> ExponentialBackoffWithContext rpcRetrySteps (flushUpdates_attempt b) (w, wd))"

definition addUploadRequest :: "UploadRequest \<Rightarrow> state \<Rightarrow> error option \<times> state" where
  "addUploadRequest r s =
     (if finalized (fst s) then (Some (AfterFinalized r), s)
      else
        (let w1 = (if req_UploadOperation r = FINALIZE then (fst s)\<lparr>finalized := True\<rparr>
                   else fst s);
             w2 = w1\<lparr>updates := updates w1 @ [r]\<rparr>
         in if \<not> finalized w2 \<and> length (updates w2) < batchSize then (None, (w2, snd s))
            else flushUpdates (w2, snd s)))"

subsection \<open>The public write operations\<close>

text \<open>
  The argument of \<^verbatim>\<open>addUploadRequest\<close> is evaluated first, so a panic of the builder
  happens before the writer is looked at.
\<close>

definition WriteConfiguration ::
  "Configuration option \<Rightarrow> state \<Rightarrow> panic + (error option \<times> state)" where
  "WriteConfiguration c s =
     (case createConfigurationUploadRequest c of
       Inl p \<Rightarrow> Inl p
     | Inr r \<Rightarrow> Inr (addUploadRequest r s))"

definition WriteTarget :: "Target option \<Rightarrow> state \<Rightarrow> panic + (error option \<times> state)" where
  "WriteTarget t s =
     (case createTargetUploadRequest t of
       Inl p \<Rightarrow> Inl p
     | Inr r \<Rightarrow> Inr (addUploadRequest r s))"

definition WriteConfiguredTarget ::
  "ConfiguredTarget option \<Rightarrow> state \<Rightarrow> panic + (error option \<times> state)" where
  "WriteConfiguredTarget ct s =
     (case createConfiguredTargetUploadRequest ct of
       Inl p \<Rightarrow> Inl p
     | Inr r \<Rightarrow> Inr (addUploadRequest r s))"

definition WriteAction :: "Action option \<Rightarrow> state \<Rightarrow> panic + (error option \<times> state)" where
  "WriteAction a s =
     (case createActionUploadRequest a of
       Inl p \<Rightarrow> Inl p
     | Inr r \<Rightarrow> Inr (addUploadRequest r s))"

definition Finalize :: "state \<Rightarrow> error option \<times> state" where
  "Finalize s = addUploadRequest finalizeRequest s"

subsection \<open>Callers\<close>

text \<open>
  A caller makes write calls one after another. \<open>addUploadRequests\<close> appends a list of
  requests in order and collects what each append returned; \<open>perform_all\<close> does the same
  for public calls and stops at a panic, as the process would.
\<close>

fun addUploadRequests :: "UploadRequest list \<Rightarrow> state \<Rightarrow> error option list \<times> state" where
  "addUploadRequests [] s = ([], s)"
| "addUploadRequests (r # rs) s =
     (case addUploadRequest r s of
       (e, s') \<Rightarrow> (case addUploadRequests rs s' of (es, s'') \<Rightarrow> (e # es, s'')))"

datatype write_call =
  Call_WriteConfiguration "Configuration option"
| Call_WriteTarget "Target option"
| Call_WriteConfiguredTarget "ConfiguredTarget option"
| Call_WriteAction "Action option"
| Call_Finalize

fun perform :: "write_call \<Rightarrow> state \<Rightarrow> panic + (error option \<times> state)" where
  "perform (Call_WriteConfiguration c) s = WriteConfiguration c s"
| "perform (Call_WriteTarget t) s = WriteTarget t s"
| "perform (Call_WriteConfiguredTarget ct) s = WriteConfiguredTarget ct s"
| "perform (Call_WriteAction a) s = WriteAction a s"
| "perform Call_Finalize s = Inr (Finalize s)"

fun perform_all :: "write_call list \<Rightarrow> state \<Rightarrow> panic + (error option list \<times> state)" where
  "perform_all [] s = Inr ([], s)"
| "perform_all (c # cs) s =
     (case perform c s of
       Inl p \<Rightarrow> Inl p
     | Inr (e, s') \<Rightarrow>
         (case perform_all cs s' of
           Inl p \<Rightarrow> Inl p
         | Inr (es, s'') \<Rightarrow> Inr (e # es, s'')))"

text \<open>
  The full blocks of \<open>batchSize\<close> requests at the front of a list: \<open>batches k xs\<close>
  is its first \<open>k\<close> blocks.
\<close>

fun batches :: "nat \<Rightarrow> 'a list \<Rightarrow> 'a list list" where
  "batches 0 xs = []"
| "batches (Suc k) xs = take batchSize xs # batches k (drop batchSize xs)"

subsection \<open>Worlds and inputs for concrete runs\<close>

text \<open>
  A world whose service answers the first calls from a script and every later call with
  a default, whose context is never done and whose \<open>n\<close>-th token is \<open>n + 1\<close>
  letters \<open>t\<close>; a writer as \<^verbatim>\<open>New\<close> leaves it; a configuration with an identifier.
\<close>

definition scripted_world :: "reply list \<Rightarrow> reply \<Rightarrow> world" where
  "scripted_world rs d =
     \<lparr>service = (\<lambda>n. if n < length rs then rs ! n else d),
      deadline = (\<lambda>n. False),
      tokens = (\<lambda>n. replicate (Suc n) CHR ''t''),
      generated = 0,
      trace = []\<rparr>"

definition opened_writer :: writer where
  "opened_writer =
     \<lparr>invID = ''inv'', authToken = ''auth'', resumeToken = ''start'', updates = [],
      finalized = False\<rparr>"

definition default_configuration :: Configuration where
  "default_configuration =
     \<lparr>cfg_Id = Some \<lparr>cfg_InvocationId = ''inv'', cfg_ConfigurationId = ''default''\<rparr>,
      cfg_body = ''attributes''\<rparr>"

definition default_request :: UploadRequest where
  "default_request =
     \<lparr>req_Id = Some \<lparr>TargetId = [], ConfigurationId = ''default'', ActionId = []\<rparr>,
      req_UploadOperation = CREATE,
      req_Resource = UploadRequest_Configuration (default_configuration\<lparr>cfg_Id := None\<rparr>)\<rparr>"

section \<open>Error classification\<close>

lemmas codes_defs =
  codes_OK_def codes_Canceled_def codes_Unknown_def codes_InvalidArgument_def
  codes_DeadlineExceeded_def codes_NotFound_def codes_AlreadyExists_def
  codes_PermissionDenied_def codes_ResourceExhausted_def codes_FailedPrecondition_def
  codes_Aborted_def codes_OutOfRange_def codes_Unimplemented_def codes_Internal_def
  codes_Unavailable_def codes_DataLoss_def codes_Unauthenticated_def

text \<open>
  Claim C2. \<^verbatim>\<open>IsPermanentError\<close> depends only on the status code of the error; it
  is true for exactly the six codes AlreadyExists, NotFound, InvalidArgument,
  FailedPrecondition, Unimplemented and PermissionDenied. A nil error (code OK) and an
  error without a gRPC status (code Unknown) are therefore not permanent, and neither is
  any other code, named or not.
\<close>

theorem IsPermanentError_exactly_six:
  "IsPermanentError err =
     (Code (FromError err) \<in>
        {codes_AlreadyExists, codes_NotFound, codes_InvalidArgument,
         codes_FailedPrecondition, codes_Unimplemented, codes_PermissionDenied})
   \<and> IsPermanentError (Some (StatusError c)) = (c \<in> {6, 5, 3, 9, 12, 7})
   \<and> IsPermanentError None = False
   \<and> IsPermanentError (Some ErrWaitTimeout) = False
   \<and> IsPermanentError (Some ContextError) = False
   \<and> IsPermanentError (Some (AfterFinalized r)) = False
   \<and> IsPermanentError (Some (OtherError m)) = False
   \<and> IsPermanentError (Some (StatusError codes_Unknown)) = False"
  by (auto simp: IsPermanentError_def codes_defs)

theorem IsPermanentError_exactly_six_witness:
  "IsPermanentError (Some (StatusError codes_NotFound)) = True
   \<and> IsPermanentError (Some (StatusError codes_Unavailable)) = False
   \<and> IsPermanentError (Some (StatusError 4711)) = False
   \<and> IsPermanentError None = False"
  using IsPermanentError_exactly_six [of "Some (StatusError codes_NotFound)" 14]
    IsPermanentError_exactly_six [of "Some (StatusError codes_Unavailable)" 4711]
  by (simp add: codes_defs)

section \<open>The retry loops\<close>

lemma scripted_world_simps [simp]:
  "service (scripted_world rs d) n = (if n < length rs then rs ! n else d)"
  "deadline (scripted_world rs d) n = False"
  "tokens (scripted_world rs d) n = replicate (Suc n) CHR ''t''"
  "generated (scripted_world rs d) = 0"
  "trace (scripted_world rs d) = []"
  by (simp_all add: scripted_world_def)

lemma retry_first_step:
  "ExponentialBackoffWithContext rpcRetrySteps condition s =
     (if ctx_done s then (Some ContextError, s)
      else
        (case condition s of
          ((ok, Some e), s') \<Rightarrow> (Some e, s')
        | ((ok, None), s') \<Rightarrow>
            if ok then (None, s') else ExponentialBackoffWithContext 7 condition s'))"
proof -
  have steps: "rpcRetrySteps = Suc 7" by (simp add: rpcRetrySteps_def)
  show ?thesis by (simp only: steps ExponentialBackoffWithContext.simps)
qed

lemma retry_numeral_step:
  "ExponentialBackoffWithContext (numeral v) condition s =
     (if ctx_done s then (Some ContextError, s)
      else
        (case condition s of
          ((ok, Some e), s') \<Rightarrow> (Some e, s')
        | ((ok, None), s') \<Rightarrow>
            if ok then (None, s') else ExponentialBackoffWithContext (pred_numeral v) condition s'))"
  by (simp add: numeral_eq_Suc)

lemma remote_call_simps [simp]:
  "fst (remote_call r wd) = service wd (length (trace wd))"
  "snd (remote_call r wd) = wd\<lparr>trace := trace wd @ [r]\<rparr>"
  by (simp_all add: remote_call_def)

lemma flush_attempt_cases:
  "flushUpdates_attempt b (w, wd) =
     (case service wd (length (trace wd)) of
        RpcError e \<Rightarrow>
          ((False, if IsPermanentError (Some e) then Some e else None),
           (w, wd\<lparr>trace := trace wd @ [UploadBatch b]\<rparr>))
      | Response x \<Rightarrow>
          ((True, None), (w\<lparr>updates := []\<rparr>, wd\<lparr>trace := trace wd @ [UploadBatch b]\<rparr>)))"
  by (simp add: flushUpdates_attempt_def remote_call_def split: reply.splits)

lemma flush_loop:
  "ExponentialBackoffWithContext n (flushUpdates_attempt b) (w, wd) = (err, (w', wd')) \<Longrightarrow>
     (\<exists>k\<le>n. wd' = wd\<lparr>trace := trace wd @ replicate k (UploadBatch b)\<rparr>
        \<and> (err = None \<longrightarrow> 0 < k))
     \<and> (if err = None then w' = w\<lparr>updates := []\<rparr> else w' = w)"
proof (induction n arbitrary: w wd)
  case 0
  then show ?case by auto
next
  case (Suc n)
  show ?case
  proof (cases "ctx_done (w, wd)")
    case True
    with Suc.prems show ?thesis by auto
  next
    case False
    show ?thesis
    proof (cases "service wd (length (trace wd))")
      case (Response x)
      with False Suc.prems show ?thesis
        by (auto simp: flush_attempt_cases intro!: exI[of _ "Suc 0"])
    next
      case (RpcError e)
      show ?thesis
      proof (cases "IsPermanentError (Some e)")
        case True
        with False RpcError Suc.prems show ?thesis
          by (auto simp: flush_attempt_cases intro!: exI[of _ "Suc 0"])
      next
        case perm: False
        from False RpcError perm Suc.prems
        have "ExponentialBackoffWithContext n (flushUpdates_attempt b)
                (w, wd\<lparr>trace := trace wd @ [UploadBatch b]\<rparr>) = (err, (w', wd'))"
          by (simp add: flush_attempt_cases)
        from Suc.IH[OF this] obtain k where k: "k \<le> n"
          "wd' = wd\<lparr>trace := trace wd @ [UploadBatch b] @ replicate k (UploadBatch b)\<rparr>"
          "err = None \<longrightarrow> 0 < k"
          and w: "if err = None then w' = w\<lparr>updates := []\<rparr> else w' = w"
          by auto
        from k have "wd' = wd\<lparr>trace := trace wd @ replicate (Suc k) (UploadBatch b)\<rparr>"
          by simp
        with k w show ?thesis
          by (intro conjI exI[of _ "Suc k"]) auto
      qed
    qed
  qed
qed

lemma create_attempt_cases:
  "createInvocation_attempt invocation (w, wd) =
     (case service wd (length (trace wd)) of
        RpcError e \<Rightarrow>
          ((False, onlyPermanentError (Some e)),
           (w, wd\<lparr>trace := trace wd @ [CreateInvocation (createInvocationRequest w invocation)]\<rparr>))
      | Response x \<Rightarrow>
          ((True, None),
           (w, wd\<lparr>trace := trace wd @ [CreateInvocation (createInvocationRequest w invocation)]\<rparr>)))"
  by (simp add: createInvocation_attempt_def remote_call_def split: reply.splits)

lemma touch_attempt_cases:
  "touchInvocation_attempt (w, wd) =
     (case service wd (length (trace wd)) of
        RpcError e \<Rightarrow>
          ((False, onlyPermanentError (Some e)),
           (w, wd\<lparr>trace := trace wd @ [TouchInvocation (touchInvocationRequest w)]\<rparr>))
      | Response x \<Rightarrow>
          ((True, None),
           (w, wd\<lparr>trace := trace wd @ [TouchInvocation (touchInvocationRequest w)]\<rparr>)))"
  by (simp add: touchInvocation_attempt_def remote_call_def split: reply.splits)

lemma retrieve_attempt_cases:
  "retrieveResumeToken_attempt (w, wd) =
     (case service wd (length (trace wd)) of
        RpcError e \<Rightarrow>
          ((False, onlyPermanentError (Some e)),
           (w, wd\<lparr>trace := trace wd @
               [GetInvocationUploadMetadata (getInvocationUploadMetadataRequest w)]\<rparr>))
      | Response tok \<Rightarrow>
          ((True, None),
           (w\<lparr>resumeToken := tok\<rparr>, wd\<lparr>trace := trace wd @
               [GetInvocationUploadMetadata (getInvocationUploadMetadataRequest w)]\<rparr>)))"
  by (simp add: retrieveResumeToken_attempt_def remote_call_def split: reply.splits)

text \<open>A retry loop whose condition leaves the writer alone and sends one fixed request.\<close>

lemma fixed_request_loop:
  assumes step: "\<And>wd. \<exists>ok e. condition (w, wd) = ((ok, e), (w, wd\<lparr>trace := trace wd @ [r]\<rparr>))"
    and run: "ExponentialBackoffWithContext n condition (w, wd) = (err, (w', wd'))"
  shows "w' = w \<and> (\<exists>k\<le>n. wd' = wd\<lparr>trace := trace wd @ replicate k r\<rparr>)"
  using run
proof (induction n arbitrary: wd)
  case 0
  then show ?case by auto
next
  case (Suc n)
  from step[of wd] obtain ok e where c: "condition (w, wd) = ((ok, e), (w, wd\<lparr>trace := trace wd @ [r]\<rparr>))"
    by blast
  show ?case
  proof (cases "ctx_done (w, wd)")
    case True
    with Suc.prems show ?thesis by auto
  next
    case False
    show ?thesis
    proof (cases "e = None \<and> \<not> ok")
      case True
      with False c Suc.prems
      have "ExponentialBackoffWithContext n condition (w, wd\<lparr>trace := trace wd @ [r]\<rparr>) = (err, (w', wd'))"
        by simp
      from Suc.IH[OF this] obtain k where "w' = w" "k \<le> n"
        "wd' = wd\<lparr>trace := trace wd @ [r] @ replicate k r\<rparr>" by auto
      then show ?thesis by (intro conjI exI[of _ "Suc k"]) auto
    next
      case stop: False
      with False c Suc.prems have "w' = w \<and> wd' = wd\<lparr>trace := trace wd @ replicate (Suc 0) r\<rparr>"
        by (cases e) (auto split: if_splits)
      then show ?thesis by (intro conjI exI[of _ "Suc 0"]) auto
    qed
  qed
qed

lemma createInvocation_effect:
  assumes "createInvocation invocation (w, wd) = (err, (w', wd'))"
  shows "w' = w \<and>
    (\<exists>k\<le>rpcRetrySteps. wd' = wd\<lparr>trace := trace wd @
        replicate k (CreateInvocation (createInvocationRequest w invocation))\<rparr>)"
  using assms unfolding createInvocation_def
  by (rule fixed_request_loop[rotated]) (auto simp: create_attempt_cases split: reply.splits)

lemma touchInvocation_effect:
  assumes "touchInvocation (w, wd) = (err, (w', wd'))"
  shows "w' = w \<and>
    (\<exists>k\<le>rpcRetrySteps. wd' = wd\<lparr>trace := trace wd @
        replicate k (TouchInvocation (touchInvocationRequest w))\<rparr>)"
  using assms unfolding touchInvocation_def
  by (rule fixed_request_loop[rotated]) (auto simp: touch_attempt_cases split: reply.splits)

lemma retrieve_loop:
  "ExponentialBackoffWithContext n retrieveResumeToken_attempt (w, wd) = (err, (w', wd')) \<Longrightarrow>
     (\<exists>k\<le>n. wd' = wd\<lparr>trace := trace wd @
          replicate k (GetInvocationUploadMetadata (getInvocationUploadMetadataRequest w))\<rparr>
        \<and> (err = None \<longrightarrow> 0 < k))
     \<and> (if err = None
         then \<exists>tok. service wd (length (trace wd') - 1) = Response tok \<and> w' = w\<lparr>resumeToken := tok\<rparr>
         else w' = w)"
proof (induction n arbitrary: wd)
  case 0
  then show ?case by auto
next
  case (Suc n)
  let ?r = "GetInvocationUploadMetadata (getInvocationUploadMetadataRequest w)"
  show ?case
  proof (cases "ctx_done (w, wd)")
    case True
    with Suc.prems show ?thesis by auto
  next
    case False
    show ?thesis
    proof (cases "service wd (length (trace wd))")
      case (Response tok)
      with False Suc.prems show ?thesis
        by (auto simp: retrieve_attempt_cases intro!: exI[of _ "Suc 0"])
    next
      case (RpcError e)
      show ?thesis
      proof (cases "IsPermanentError (Some e)")
        case True
        with False RpcError Suc.prems show ?thesis
          by (auto simp: retrieve_attempt_cases onlyPermanentError_def intro!: exI[of _ "Suc 0"])
      next
        case perm: False
        from False RpcError perm Suc.prems
        have "ExponentialBackoffWithContext n retrieveResumeToken_attempt
                (w, wd\<lparr>trace := trace wd @ [?r]\<rparr>) = (err, (w', wd'))"
          by (simp add: retrieve_attempt_cases onlyPermanentError_def)
        note ih = Suc.IH[OF this]
        from ih obtain k where k: "k \<le> n"
          "wd' = wd\<lparr>trace := trace wd @ [?r] @ replicate k ?r\<rparr>"
          "err = None \<longrightarrow> 0 < k"
          by force
        from ih have w: "if err = None
            then \<exists>tok. service wd (length (trace wd') - 1) = Response tok \<and> w' = w\<lparr>resumeToken := tok\<rparr>
            else w' = w"
          by (auto split: if_splits)
        from k have "wd' = wd\<lparr>trace := trace wd @ replicate (Suc k) ?r\<rparr>"
          by simp
        with k w show ?thesis
          by (intro conjI exI[of _ "Suc k"]) auto
      qed
    qed
  qed
qed

section \<open>Opening a writer\<close>

text \<open>
  Claim C7. When the context is not done and the service accepts the first
  \<^verbatim>\<open>CreateInvocation\<close> call, \<^verbatim>\<open>New\<close> returns a writer after that one call,
  with an empty buffer, not finalized, and with the very token it sent as the initial
  resume token of the request.
\<close>

theorem New_fresh_invocation:
  assumes "\<not> deadline wd (length (trace wd))"
    and "service wd (length (trace wd)) = Response x"
  shows "New wd invocation i a =
    (Inr \<lparr>invID = i, authToken = a, resumeToken = tokens wd (generated wd), updates = [],
          finalized = False\<rparr>,
     wd\<lparr>generated := Suc (generated wd),
        trace := trace wd @
          [CreateInvocation \<lparr>ci_InvocationId = i, ci_Invocation = invocation,
             ci_AuthorizationToken = a, ci_InitialResumeToken = tokens wd (generated wd)\<rparr>]\<rparr>)"
  using assms
  by (simp add: New_def resumeToken_func_def createInvocation_def retry_first_step
      ctx_done_def create_attempt_cases createInvocationRequest_def)

theorem New_fresh_invocation_witness:
  "New (scripted_world [] (Response [])) ''payload'' ''inv'' ''auth'' =
    (Inr \<lparr>invID = ''inv'', authToken = ''auth'', resumeToken = ''t'', updates = [],
          finalized = False\<rparr>,
     (scripted_world [] (Response []))\<lparr>generated := 1,
        trace := [CreateInvocation \<lparr>ci_InvocationId = ''inv'', ci_Invocation = ''payload'',
             ci_AuthorizationToken = ''auth'', ci_InitialResumeToken = ''t''\<rparr>]\<rparr>)"
  using New_fresh_invocation [of "scripted_world [] (Response [])" "[]" "''payload''" "''inv''" "''auth''"]
  by simp

lemma IsAlreadyExistsErr_None [simp]: "\<not> IsAlreadyExistsErr None"
  by (simp add: IsAlreadyExistsErr_def codes_defs)

lemmas run_simps =
  createInvocation_def touchInvocation_def retrieveResumeToken_def retry_first_step
  create_attempt_cases touch_attempt_cases retrieve_attempt_cases ctx_done_def
  onlyPermanentError_def IsPermanentError_def IsAlreadyExistsErr_def codes_defs
  createInvocationRequest_def touchInvocationRequest_def getInvocationUploadMetadataRequest_def
  invocationName_def uploadMetadataName_def

text \<open>
  Claim C6, as the code has it. Let creation fail with an AlreadyExists error. If the
  touch then fails with a permanent error, \<^verbatim>\<open>New\<close> returns the creation error and
  no writer. If the touch does not fail permanently (it succeeded, or it ran out of
  retries or of time), \<^verbatim>\<open>New\<close> asks for the upload metadata: when that call succeeds,
  \<^verbatim>\<open>New\<close> returns the writer with the token of the service's answer as its current
  token and everything else as at creation; when it fails, \<^verbatim>\<open>New\<close> returns that
  failure and no writer.
\<close>

theorem New_existing_invocation:
  assumes create: "createInvocation invocation
        (\<lparr>invID = i, authToken = a, resumeToken = tokens wd (generated wd), updates = [],
          finalized = False\<rparr>, wd\<lparr>generated := Suc (generated wd)\<rparr>) = (Some err, s1)"
    and exists: "IsAlreadyExistsErr (Some err)"
    and touch: "touchInvocation s1 = (touchErr, s2)"
    and retrieve: "retrieveResumeToken s2 = (err2, s3)"
  shows "(IsPermanentError touchErr \<longrightarrow> New wd invocation i a = (Inl err, snd s2))
    \<and> (\<not> IsPermanentError touchErr \<and> err2 = None \<longrightarrow>
          New wd invocation i a = (Inr (fst s3), snd s3)
          \<and> (\<exists>tok. service wd (length (trace (snd s3)) - 1) = Response tok
                \<and> fst s3 = \<lparr>invID = i, authToken = a, resumeToken = tok, updates = [],
                             finalized = False\<rparr>)
          \<and> last (trace (snd s3)) =
              GetInvocationUploadMetadata
                \<lparr>gm_Name = ''invocations/'' @ i @ ''/uploadMetadata'', gm_AuthorizationToken = a\<rparr>)
    \<and> (\<not> IsPermanentError touchErr \<longrightarrow>
          (\<forall>e. err2 = Some e \<longrightarrow> New wd invocation i a = (Inl e, snd s3)))"
proof -
  let ?w0 = "\<lparr>invID = i, authToken = a, resumeToken = tokens wd (generated wd), updates = [],
          finalized = False\<rparr>"
  let ?wd1 = "wd\<lparr>generated := Suc (generated wd)\<rparr>"
  obtain w1 wd1' where s1: "s1 = (w1, wd1')" by (cases s1)
  obtain w2 wd2 where s2: "s2 = (w2, wd2)" by (cases s2)
  obtain w3 wd3 where s3: "s3 = (w3, wd3)" by (cases s3)
  from createInvocation_effect[OF create[unfolded s1]]
  have w1: "w1 = ?w0" and sv1: "service wd1' = service wd" by auto
  from touchInvocation_effect[OF touch[unfolded s1 s2]]
  have w2: "w2 = ?w0" and sv2: "service wd2 = service wd" using w1 sv1 by auto
  have new: "New wd invocation i a =
      (if IsPermanentError touchErr then (Inl err, snd s2)
       else case err2 of Some e \<Rightarrow> (Inl e, snd s3) | None \<Rightarrow> (Inr (fst s3), snd s3))"
    using create exists touch retrieve
    by (simp add: New_def resumeToken_func_def split: option.splits)
  have adopted: "(\<exists>tok. service wd (length (trace (snd s3)) - 1) = Response tok
                \<and> fst s3 = ?w0\<lparr>resumeToken := tok\<rparr>)
          \<and> last (trace (snd s3)) =
              GetInvocationUploadMetadata (getInvocationUploadMetadataRequest ?w0)"
    if ok: "err2 = None"
  proof -
    from retrieve have "ExponentialBackoffWithContext rpcRetrySteps retrieveResumeToken_attempt
        (w2, wd2) = (None, (w3, wd3))"
      by (simp add: retrieveResumeToken_def s2 s3 ok)
    from retrieve_loop[OF this] obtain k where k: "0 < k"
      "wd3 = wd2\<lparr>trace := trace wd2 @
          replicate k (GetInvocationUploadMetadata (getInvocationUploadMetadataRequest w2))\<rparr>"
      and tok: "\<exists>tok. service wd2 (length (trace wd3) - 1) = Response tok \<and>
          w3 = w2\<lparr>resumeToken := tok\<rparr>"
      by auto
    from k have "last (trace wd3) =
        GetInvocationUploadMetadata (getInvocationUploadMetadataRequest w2)"
      by (cases k) auto
    with tok show ?thesis by (simp add: s3 w2 sv2)
  qed
  show ?thesis
    using new adopted
    by (auto simp: getInvocationUploadMetadataRequest_def uploadMetadataName_def)
qed

theorem New_existing_invocation_witness:
  "fst (New (scripted_world
          [RpcError (StatusError codes_AlreadyExists), Response [], Response ''resumed'']
          (Response [])) ''payload'' ''inv'' ''auth'') =
     Inr \<lparr>invID = ''inv'', authToken = ''auth'', resumeToken = ''resumed'', updates = [],
          finalized = False\<rparr>
   \<and> fst (New (scripted_world
          [RpcError (StatusError codes_AlreadyExists),
           RpcError (StatusError codes_FailedPrecondition)]
          (Response [])) ''payload'' ''inv'' ''auth'') =
     Inl (StatusError codes_AlreadyExists)"
proof -
  let ?W = "scripted_world
          [RpcError (StatusError codes_AlreadyExists), Response [], Response ''resumed'']
          (Response [])"
  let ?V = "scripted_world
          [RpcError (StatusError codes_AlreadyExists),
           RpcError (StatusError codes_FailedPrecondition)]
          (Response [])"
  let ?w0 = "\<lparr>invID = ''inv'', authToken = ''auth'', resumeToken = ''t'', updates = [],
          finalized = False\<rparr>"
  let ?cW = "createInvocation ''payload'' (?w0, ?W\<lparr>generated := Suc 0\<rparr>)"
  let ?cV = "createInvocation ''payload'' (?w0, ?V\<lparr>generated := Suc 0\<rparr>)"
  have "fst (New ?W ''payload'' ''inv'' ''auth'') =
     Inr \<lparr>invID = ''inv'', authToken = ''auth'', resumeToken = ''resumed'', updates = [],
          finalized = False\<rparr>"
    using New_existing_invocation [of "''payload''" "''inv''" "''auth''" ?W
        "StatusError codes_AlreadyExists" "snd ?cW"
        "fst (touchInvocation (snd ?cW))" "snd (touchInvocation (snd ?cW))"
        "fst (retrieveResumeToken (snd (touchInvocation (snd ?cW))))"
        "snd (retrieveResumeToken (snd (touchInvocation (snd ?cW))))"]
    by (simp add: run_simps)
  moreover have "fst (New ?V ''payload'' ''inv'' ''auth'') = Inl (StatusError codes_AlreadyExists)"
    using New_existing_invocation [of "''payload''" "''inv''" "''auth''" ?V
        "StatusError codes_AlreadyExists" "snd ?cV"
        "fst (touchInvocation (snd ?cV))" "snd (touchInvocation (snd ?cV))"
        "fst (retrieveResumeToken (snd (touchInvocation (snd ?cV))))"
        "snd (retrieveResumeToken (snd (touchInvocation (snd ?cV))))"]
    by (simp add: run_simps)
  ultimately show ?thesis by simp
qed

text \<open>
  The claim without the condition on the metadata call fails: the invocation exists, the
  touch succeeds, and the service answers \<^verbatim>\<open>GetInvocationUploadMetadata\<close> with
  NotFound. \<^verbatim>\<open>New\<close> then returns that error, not a writer.
\<close>

theorem New_retrieve_failure_counterexample:
  "createInvocation ''payload''
      (\<lparr>invID = ''inv'', authToken = ''auth'', resumeToken = ''t'', updates = [],
          finalized = False\<rparr>,
       (scripted_world [RpcError (StatusError codes_AlreadyExists), Response []]
          (RpcError (StatusError codes_NotFound)))\<lparr>generated := 1\<rparr>) =
     (Some (StatusError codes_AlreadyExists),
      \<lparr>invID = ''inv'', authToken = ''auth'', resumeToken = ''t'', updates = [],
          finalized = False\<rparr>,
      (scripted_world [RpcError (StatusError codes_AlreadyExists), Response []]
          (RpcError (StatusError codes_NotFound)))\<lparr>generated := 1,
         trace := [CreateInvocation \<lparr>ci_InvocationId = ''inv'', ci_Invocation = ''payload'',
             ci_AuthorizationToken = ''auth'', ci_InitialResumeToken = ''t''\<rparr>]\<rparr>)
   \<and> fst (touchInvocation
      (\<lparr>invID = ''inv'', authToken = ''auth'', resumeToken = ''t'', updates = [],
          finalized = False\<rparr>,
      (scripted_world [RpcError (StatusError codes_AlreadyExists), Response []]
          (RpcError (StatusError codes_NotFound)))\<lparr>generated := 1,
         trace := [CreateInvocation \<lparr>ci_InvocationId = ''inv'', ci_Invocation = ''payload'',
             ci_AuthorizationToken = ''auth'', ci_InitialResumeToken = ''t''\<rparr>]\<rparr>)) = None
   \<and> fst (New (scripted_world [RpcError (StatusError codes_AlreadyExists), Response []]
          (RpcError (StatusError codes_NotFound))) ''payload'' ''inv'' ''auth'') =
     Inl (StatusError codes_NotFound)"
  by (simp add: New_def resumeToken_func_def run_simps)

section \<open>Flushing\<close>

lemma flush_loop_first_call:
  assumes "\<not> deadline wd (length (trace wd))"
    and "ExponentialBackoffWithContext (Suc n) (flushUpdates_attempt b) (w, wd) = (err, (w', wd'))"
  shows "\<exists>k. 0 < k \<and> k \<le> Suc n \<and> wd' = wd\<lparr>trace := trace wd @ replicate k (UploadBatch b)\<rparr>"
proof (cases "service wd (length (trace wd))")
  case (Response x)
  with assms show ?thesis
    by (auto simp: flush_attempt_cases ctx_done_def intro!: exI[of _ "Suc 0"])
next
  case (RpcError e)
  show ?thesis
  proof (cases "IsPermanentError (Some e)")
    case True
    with assms RpcError show ?thesis
      by (auto simp: flush_attempt_cases ctx_done_def intro!: exI[of _ "Suc 0"])
  next
    case False
    with assms RpcError
    have "ExponentialBackoffWithContext n (flushUpdates_attempt b)
            (w, wd\<lparr>trace := trace wd @ [UploadBatch b]\<rparr>) = (err, (w', wd'))"
      by (simp add: flush_attempt_cases ctx_done_def)
    from flush_loop[OF this] obtain k where "k \<le> n"
      "wd' = wd\<lparr>trace := trace wd @ [UploadBatch b] @ replicate k (UploadBatch b)\<rparr>"
      by force
    then show ?thesis by (intro exI[of _ "Suc k"]) auto
  qed
qed

lemmas flush_simps =
  flushUpdates_def uploadBatchRequest_def resumeToken_func_def retry_first_step
  flush_attempt_cases ctx_done_def IsPermanentError_def codes_defs invocationName_def
  opened_writer_def

lemma flushUpdates_effect:
  assumes "flushUpdates (w, wd) = (err, (w', wd'))"
  shows "w' = w\<lparr>resumeToken := tokens wd (generated wd),
                 updates := (if err = None then [] else updates w)\<rparr>
    \<and> (\<exists>k\<le>rpcRetrySteps.
          wd' = wd\<lparr>generated := Suc (generated wd),
                    trace := trace wd @ replicate k (UploadBatch
                      \<lparr>ub_Parent = invocationName w, ub_ResumeToken = resumeToken w,
                       ub_NextResumeToken = tokens wd (generated wd),
                       ub_AuthorizationToken = authToken w,
                       ub_UploadRequests = updates w\<rparr>)\<rparr>
          \<and> (err = None \<longrightarrow> 0 < k))
    \<and> (err \<noteq> None \<longrightarrow>
          fst (uploadBatchRequest w' (updates w') wd') =
            \<lparr>ub_Parent = invocationName w, ub_ResumeToken = tokens wd (generated wd),
             ub_NextResumeToken = tokens wd (Suc (generated wd)),
             ub_AuthorizationToken = authToken w,
             ub_UploadRequests = updates w\<rparr>)"
proof -
  let ?b = "\<lparr>ub_Parent = invocationName w, ub_ResumeToken = resumeToken w,
             ub_NextResumeToken = tokens wd (generated wd),
             ub_AuthorizationToken = authToken w,
             ub_UploadRequests = updates w\<rparr>"
  let ?w1 = "w\<lparr>resumeToken := tokens wd (generated wd)\<rparr>"
  let ?wd1 = "wd\<lparr>generated := Suc (generated wd)\<rparr>"
  from assms have run: "ExponentialBackoffWithContext rpcRetrySteps (flushUpdates_attempt ?b)
      (?w1, ?wd1) = (err, (w', wd'))"
    by (simp add: flushUpdates_def uploadBatchRequest_def resumeToken_func_def)
  from flush_loop[OF run] obtain k where k: "k \<le> rpcRetrySteps"
    "wd' = ?wd1\<lparr>trace := trace ?wd1 @ replicate k (UploadBatch ?b)\<rparr>" "err = None \<longrightarrow> 0 < k"
    by blast
  from flush_loop[OF run] have w': "w' = (if err = None then ?w1\<lparr>updates := []\<rparr> else ?w1)"
    by (auto split: if_splits)
  have 1: "w' = w\<lparr>resumeToken := tokens wd (generated wd),
                 updates := (if err = None then [] else updates w)\<rparr>"
    using w' by simp
  have 2: "\<exists>k\<le>rpcRetrySteps.
          wd' = wd\<lparr>generated := Suc (generated wd),
                    trace := trace wd @ replicate k (UploadBatch ?b)\<rparr>
          \<and> (err = None \<longrightarrow> 0 < k)"
    using k by (intro exI[of _ k]) simp
  have 3: "fst (uploadBatchRequest w' (updates w') wd') =
            \<lparr>ub_Parent = invocationName w, ub_ResumeToken = tokens wd (generated wd),
             ub_NextResumeToken = tokens wd (Suc (generated wd)),
             ub_AuthorizationToken = authToken w,
             ub_UploadRequests = updates w\<rparr>" if "err \<noteq> None"
    using that 1 k(2)
    by (auto simp: uploadBatchRequest_def resumeToken_func_def invocationName_def)
  from 1 2 3 show ?thesis by blast
qed

text \<open>
  Claim C1, as the code has it. Whatever the outcome of a flush, the writer's current
  resume token afterwards is the next token drawn for that flush:
  \<^verbatim>\<open>uploadBatchRequest\<close> stores it before the first remote call and nothing
  restores the old one. A flush that fails (a permanent error, the retries used up, or
  the context done) leaves the buffer, the finalized flag and the identity unchanged; a
  flush that succeeds empties the buffer. Every remote call of the flush carries the
  same request. After a failure a further flush would send the identical list of upload
  requests, with the stored next token as resume token and a newly drawn next token.
\<close>

theorem flushUpdates_outcome:
  assumes "flushUpdates (w, wd) = (err, (w', wd'))"
  shows "w' = w\<lparr>resumeToken := tokens wd (generated wd),
                 updates := (if err = None then [] else updates w)\<rparr>
    \<and> (\<exists>k\<le>rpcRetrySteps.
          wd' = wd\<lparr>generated := Suc (generated wd),
                    trace := trace wd @ replicate k (UploadBatch
                      \<lparr>ub_Parent = invocationName w, ub_ResumeToken = resumeToken w,
                       ub_NextResumeToken = tokens wd (generated wd),
                       ub_AuthorizationToken = authToken w,
                       ub_UploadRequests = updates w\<rparr>)\<rparr>
          \<and> (err = None \<longrightarrow> 0 < k))
    \<and> (err \<noteq> None \<longrightarrow>
          fst (uploadBatchRequest w' (updates w') wd') =
            \<lparr>ub_Parent = invocationName w, ub_ResumeToken = tokens wd (generated wd),
             ub_NextResumeToken = tokens wd (Suc (generated wd)),
             ub_AuthorizationToken = authToken w,
             ub_UploadRequests = updates w\<rparr>)"
  using assms by (rule flushUpdates_effect)

theorem flushUpdates_outcome_witness:
  "flushUpdates (opened_writer\<lparr>updates := [default_request]\<rparr>,
       scripted_world [] (RpcError (StatusError codes_PermissionDenied))) =
    (Some (StatusError codes_PermissionDenied),
     opened_writer\<lparr>resumeToken := ''t'', updates := [default_request]\<rparr>,
     (scripted_world [] (RpcError (StatusError codes_PermissionDenied)))
       \<lparr>generated := 1,
        trace := [UploadBatch
           \<lparr>ub_Parent = ''invocations/inv'', ub_ResumeToken = ''start'',
            ub_NextResumeToken = ''t'', ub_AuthorizationToken = ''auth'',
            ub_UploadRequests = [default_request]\<rparr>]\<rparr>)
   \<and> fst (uploadBatchRequest (opened_writer\<lparr>resumeToken := ''t'', updates := [default_request]\<rparr>)
        [default_request]
        ((scripted_world [] (RpcError (StatusError codes_PermissionDenied)))
       \<lparr>generated := 1,
        trace := [UploadBatch
           \<lparr>ub_Parent = ''invocations/inv'', ub_ResumeToken = ''start'',
            ub_NextResumeToken = ''t'', ub_AuthorizationToken = ''auth'',
            ub_UploadRequests = [default_request]\<rparr>]\<rparr>)) =
       \<lparr>ub_Parent = ''invocations/inv'', ub_ResumeToken = ''t'',
        ub_NextResumeToken = ''tt'', ub_AuthorizationToken = ''auth'',
        ub_UploadRequests = [default_request]\<rparr>"
proof -
  let ?s = "(opened_writer\<lparr>updates := [default_request]\<rparr>,
       scripted_world [] (RpcError (StatusError codes_PermissionDenied)))"
  have run: "flushUpdates ?s =
    (Some (StatusError codes_PermissionDenied),
     opened_writer\<lparr>resumeToken := ''t'', updates := [default_request]\<rparr>,
     (scripted_world [] (RpcError (StatusError codes_PermissionDenied)))
       \<lparr>generated := 1,
        trace := [UploadBatch
           \<lparr>ub_Parent = ''invocations/inv'', ub_ResumeToken = ''start'',
            ub_NextResumeToken = ''t'', ub_AuthorizationToken = ''auth'',
            ub_UploadRequests = [default_request]\<rparr>]\<rparr>)"
    by (simp add: flush_simps)
  from flushUpdates_outcome[OF run] show ?thesis
    using run by (simp add: opened_writer_def invocationName_def)
qed

text \<open>
  The claim that a failed flush leaves the current token unchanged fails: the service
  rejects the batch with InvalidArgument, the flush returns that error, and the writer's
  token has moved from \<open>start\<close> to the drawn token \<open>t\<close>. A second flush then
  sends the same upload requests with the token pair \<open>(t, tt)\<close>, not \<open>(start, t)\<close>.
  The token moves in the same way when the flush fails because the eight attempts are
  used up on a service that is unavailable, and when the context is done after two calls.
\<close>

theorem failed_flush_token_counterexample:
  "fst (flushUpdates (opened_writer\<lparr>updates := [default_request]\<rparr>,
       scripted_world [] (RpcError (StatusError codes_InvalidArgument)))) =
     Some (StatusError codes_InvalidArgument)
   \<and> resumeToken (opened_writer\<lparr>updates := [default_request]\<rparr>) = ''start''
   \<and> resumeToken (fst (snd (flushUpdates (opened_writer\<lparr>updates := [default_request]\<rparr>,
       scripted_world [] (RpcError (StatusError codes_InvalidArgument)))))) = ''t''
   \<and> trace (snd (snd (flushUpdates (snd (flushUpdates
        (opened_writer\<lparr>updates := [default_request]\<rparr>,
         scripted_world [] (RpcError (StatusError codes_InvalidArgument)))))))) =
      [UploadBatch \<lparr>ub_Parent = ''invocations/inv'', ub_ResumeToken = ''start'',
            ub_NextResumeToken = ''t'', ub_AuthorizationToken = ''auth'',
            ub_UploadRequests = [default_request]\<rparr>,
       UploadBatch \<lparr>ub_Parent = ''invocations/inv'', ub_ResumeToken = ''t'',
            ub_NextResumeToken = ''tt'', ub_AuthorizationToken = ''auth'',
            ub_UploadRequests = [default_request]\<rparr>]
   \<and> fst (flushUpdates (opened_writer\<lparr>updates := [default_request]\<rparr>,
       scripted_world [] (RpcError (StatusError codes_Unavailable)))) = Some ErrWaitTimeout
   \<and> length (trace (snd (snd (flushUpdates (opened_writer\<lparr>updates := [default_request]\<rparr>,
       scripted_world [] (RpcError (StatusError codes_Unavailable))))))) = 8
   \<and> resumeToken (fst (snd (flushUpdates (opened_writer\<lparr>updates := [default_request]\<rparr>,
       scripted_world [] (RpcError (StatusError codes_Unavailable)))))) = ''t''
   \<and> fst (flushUpdates (opened_writer\<lparr>updates := [default_request]\<rparr>,
       (scripted_world [] (RpcError (StatusError codes_Unavailable)))
          \<lparr>deadline := (\<lambda>n. 2 \<le> n)\<rparr>)) = Some ContextError
   \<and> resumeToken (fst (snd (flushUpdates (opened_writer\<lparr>updates := [default_request]\<rparr>,
       (scripted_world [] (RpcError (StatusError codes_Unavailable)))
          \<lparr>deadline := (\<lambda>n. 2 \<le> n)\<rparr>)))) = ''t''"
  by (simp add: flush_simps retry_numeral_step)

lemma flush_loop_transient_then_success:
  assumes "k < n"
    and "\<forall>j\<le>k. \<not> deadline wd (length (trace wd) + j)"
    and "\<forall>j<k. \<exists>e. service wd (length (trace wd) + j) = RpcError e \<and> \<not> IsPermanentError (Some e)"
    and "service wd (length (trace wd) + k) = Response x"
  shows "ExponentialBackoffWithContext n (flushUpdates_attempt b) (w, wd) =
    (None, (w\<lparr>updates := []\<rparr>, wd\<lparr>trace := trace wd @ replicate (Suc k) (UploadBatch b)\<rparr>))"
  using assms
proof (induction k arbitrary: n wd)
  case 0
  then obtain m where "n = Suc m" by (cases n) auto
  with 0 show ?case by (simp add: ctx_done_def flush_attempt_cases)
next
  case (Suc k)
  then obtain m where n: "n = Suc m" and m: "k < m" by (cases n) auto
  from Suc.prems(2) have nd: "\<not> deadline wd (length (trace wd))" by force
  from Suc.prems(3) obtain e where e: "service wd (length (trace wd)) = RpcError e"
    "\<not> IsPermanentError (Some e)" by force
  let ?wd = "wd\<lparr>trace := trace wd @ [UploadBatch b]\<rparr>"
  have step: "ExponentialBackoffWithContext n (flushUpdates_attempt b) (w, wd) =
      ExponentialBackoffWithContext m (flushUpdates_attempt b) (w, ?wd)"
    using n nd e by (simp add: ctx_done_def flush_attempt_cases)
  have a: "\<forall>j\<le>k. \<not> deadline ?wd (length (trace ?wd) + j)"
  proof (intro allI impI)
    fix j assume "j \<le> k"
    with Suc.prems(2) have "\<not> deadline wd (length (trace wd) + Suc j)" by force
    then show "\<not> deadline ?wd (length (trace ?wd) + j)" by simp
  qed
  have b: "\<forall>j<k. \<exists>e. service ?wd (length (trace ?wd) + j) = RpcError e
      \<and> \<not> IsPermanentError (Some e)"
  proof (intro allI impI)
    fix j assume "j < k"
    with Suc.prems(3) have "\<exists>e. service wd (length (trace wd) + Suc j) = RpcError e
      \<and> \<not> IsPermanentError (Some e)" by force
    then show "\<exists>e. service ?wd (length (trace ?wd) + j) = RpcError e
      \<and> \<not> IsPermanentError (Some e)" by simp
  qed
  have c: "service ?wd (length (trace ?wd) + k) = Response x"
    using Suc.prems(4) by simp
  from Suc.IH[OF m a b c] step show ?case by (simp add: replicate_append_same)
qed

text \<open>
  Claim C8. Let the remote call of one flush fail \<open>k\<close> times with transient errors and
  then succeed, within the retry budget (\<open>k\<close> below the number of steps) and with the
  context not done. Then the flush returns nil after exactly \<open>k + 1\<close> remote calls, all
  carrying the one request built before the first call: the same upload requests, the
  same resume token and the same next token, drawn once. Each of the first \<open>k\<close>
  attempts leaves the writer, buffer included, as it was and asks for a retry; the
  attempt that succeeds is the one that empties the buffer.
\<close>

theorem flushUpdates_retries_same_request:
  assumes "k < rpcRetrySteps"
    and "\<forall>j\<le>k. \<not> deadline wd (length (trace wd) + j)"
    and "\<forall>j<k. \<exists>e. service wd (length (trace wd) + j) = RpcError e \<and> \<not> IsPermanentError (Some e)"
    and "service wd (length (trace wd) + k) = Response x"
  shows "flushUpdates (w, wd) =
      (None,
       w\<lparr>resumeToken := tokens wd (generated wd), updates := []\<rparr>,
       wd\<lparr>generated := Suc (generated wd),
          trace := trace wd @ replicate (Suc k)
            (UploadBatch (fst (uploadBatchRequest w (updates w) wd)))\<rparr>)
    \<and> fst (uploadBatchRequest w (updates w) wd) =
        \<lparr>ub_Parent = invocationName w, ub_ResumeToken = resumeToken w,
         ub_NextResumeToken = tokens wd (generated wd),
         ub_AuthorizationToken = authToken w, ub_UploadRequests = updates w\<rparr>
    \<and> (\<forall>m<k. flushUpdates_attempt (fst (uploadBatchRequest w (updates w) wd))
            (w\<lparr>resumeToken := tokens wd (generated wd)\<rparr>,
             wd\<lparr>generated := Suc (generated wd),
                trace := trace wd @ replicate m
                  (UploadBatch (fst (uploadBatchRequest w (updates w) wd)))\<rparr>) =
          ((False, None),
           w\<lparr>resumeToken := tokens wd (generated wd)\<rparr>,
           wd\<lparr>generated := Suc (generated wd),
              trace := trace wd @ replicate (Suc m)
                (UploadBatch (fst (uploadBatchRequest w (updates w) wd)))\<rparr>))
    \<and> flushUpdates_attempt (fst (uploadBatchRequest w (updates w) wd))
            (w\<lparr>resumeToken := tokens wd (generated wd)\<rparr>,
             wd\<lparr>generated := Suc (generated wd),
                trace := trace wd @ replicate k
                  (UploadBatch (fst (uploadBatchRequest w (updates w) wd)))\<rparr>) =
          ((True, None),
           w\<lparr>resumeToken := tokens wd (generated wd), updates := []\<rparr>,
           wd\<lparr>generated := Suc (generated wd),
              trace := trace wd @ replicate (Suc k)
                (UploadBatch (fst (uploadBatchRequest w (updates w) wd)))\<rparr>)"
proof -
  let ?b = "fst (uploadBatchRequest w (updates w) wd)"
  let ?w1 = "w\<lparr>resumeToken := tokens wd (generated wd)\<rparr>"
  let ?wd1 = "wd\<lparr>generated := Suc (generated wd)\<rparr>"
  have b: "?b = \<lparr>ub_Parent = invocationName w, ub_ResumeToken = resumeToken w,
         ub_NextResumeToken = tokens wd (generated wd),
         ub_AuthorizationToken = authToken w, ub_UploadRequests = updates w\<rparr>"
    by (simp add: uploadBatchRequest_def resumeToken_func_def)
  have unfold: "flushUpdates (w, wd) =
      ExponentialBackoffWithContext rpcRetrySteps (flushUpdates_attempt ?b) (?w1, ?wd1)"
    by (simp add: flushUpdates_def uploadBatchRequest_def resumeToken_func_def)
  have "ExponentialBackoffWithContext rpcRetrySteps (flushUpdates_attempt ?b) (?w1, ?wd1) =
      (None, (?w1\<lparr>updates := []\<rparr>,
              ?wd1\<lparr>trace := trace ?wd1 @ replicate (Suc k) (UploadBatch ?b)\<rparr>))"
    using assms by (intro flush_loop_transient_then_success[where x = x]) simp_all
  with unfold have 1: "flushUpdates (w, wd) =
      (None, ?w1\<lparr>updates := []\<rparr>,
       wd\<lparr>generated := Suc (generated wd),
          trace := trace wd @ replicate (Suc k) (UploadBatch ?b)\<rparr>)"
    by simp
  have 3: "flushUpdates_attempt ?b
            (?w1, wd\<lparr>generated := Suc (generated wd),
                trace := trace wd @ replicate m (UploadBatch ?b)\<rparr>) =
          ((False, None), ?w1,
           wd\<lparr>generated := Suc (generated wd),
              trace := trace wd @ replicate (Suc m) (UploadBatch ?b)\<rparr>)" if "m < k" for m
  proof -
    from assms(3) that obtain e where "service wd (length (trace wd) + m) = RpcError e"
      "\<not> IsPermanentError (Some e)" by blast
    then show ?thesis
      by (simp add: flush_attempt_cases replicate_append_same)
  qed
  have 4: "flushUpdates_attempt ?b
            (?w1, wd\<lparr>generated := Suc (generated wd),
                trace := trace wd @ replicate k (UploadBatch ?b)\<rparr>) =
          ((True, None), ?w1\<lparr>updates := []\<rparr>,
           wd\<lparr>generated := Suc (generated wd),
              trace := trace wd @ replicate (Suc k) (UploadBatch ?b)\<rparr>)"
    using assms(4) by (simp add: flush_attempt_cases replicate_append_same)
  from 1 b 3 4 show ?thesis by simp
qed

theorem flushUpdates_retries_same_request_witness:
  "flushUpdates (opened_writer\<lparr>updates := [default_request]\<rparr>,
       scripted_world [RpcError (StatusError codes_Unavailable),
                       RpcError (StatusError codes_DeadlineExceeded)] (Response [])) =
    (None,
     opened_writer\<lparr>resumeToken := ''t''\<rparr>,
     (scripted_world [RpcError (StatusError codes_Unavailable),
                       RpcError (StatusError codes_DeadlineExceeded)] (Response []))
       \<lparr>generated := 1,
        trace := replicate 3 (UploadBatch
           \<lparr>ub_Parent = ''invocations/inv'', ub_ResumeToken = ''start'',
            ub_NextResumeToken = ''t'', ub_AuthorizationToken = ''auth'',
            ub_UploadRequests = [default_request]\<rparr>)\<rparr>)"
proof -
  let ?wd = "scripted_world [RpcError (StatusError codes_Unavailable),
                       RpcError (StatusError codes_DeadlineExceeded)] (Response [])"
  have 1: "(2::nat) < rpcRetrySteps" by (simp add: rpcRetrySteps_def)
  have 2: "\<forall>j\<le>2. \<not> deadline ?wd (length (trace ?wd) + j)" by simp
  have 3: "\<forall>j<2. \<exists>e. service ?wd (length (trace ?wd) + j) = RpcError e
      \<and> \<not> IsPermanentError (Some e)"
  proof (intro allI impI)
    fix j :: nat
    assume "j < 2"
    then have "j = 0 \<or> j = 1" by auto
    then show "\<exists>e. service ?wd (length (trace ?wd) + j) = RpcError e
      \<and> \<not> IsPermanentError (Some e)"
      by (auto simp: IsPermanentError_def codes_defs)
  qed
  have 4: "service ?wd (length (trace ?wd) + 2) = Response []" by simp
  from flushUpdates_retries_same_request[OF 1 2 3 4, of "opened_writer\<lparr>updates := [default_request]\<rparr>"]
  show ?thesis
    by (simp add: opened_writer_def uploadBatchRequest_def resumeToken_func_def invocationName_def)
qed

section \<open>Finalizing\<close>

lemma finalizeRequest_simps [simp]:
  "req_UploadOperation finalizeRequest = FINALIZE"
  by (simp add: finalizeRequest_def)

lemma addUploadRequest_finalized:
  "finalized w \<Longrightarrow> addUploadRequest r (w, wd) = (Some (AfterFinalized r), (w, wd))"
  by (simp add: addUploadRequest_def)

lemma flushUpdates_finalized:
  "finalized (fst (snd (flushUpdates (w, wd)))) = finalized w"
proof -
  obtain err w' wd' where run: "flushUpdates (w, wd) = (err, (w', wd'))"
    by (metis surj_pair)
  from flushUpdates_effect[OF run] have "finalized w' = finalized w" by simp
  with run show ?thesis by simp
qed

text \<open>
  Claim C4. On a writer that is not finalized, \<^verbatim>\<open>Finalize\<close> is the flush of the
  writer with the latch already set and the finalize request appended to the buffer: the
  latch is set before the flush starts, and the batch of that flush ends with the
  finalize request. Whatever the flush returns, the writer is finalized afterwards and
  refuses every further append; when the flush fails the finalize request stays in the
  buffer. Unless the context is already done when the flush starts, at least one
  \<^verbatim>\<open>UploadBatch\<close> call carrying that batch is made.
\<close>

theorem Finalize_latches_then_flushes:
  assumes "\<not> finalized w"
  shows "Finalize (w, wd) =
      flushUpdates (w\<lparr>finalized := True, updates := updates w @ [finalizeRequest]\<rparr>, wd)
    \<and> finalized (fst (snd (Finalize (w, wd))))
    \<and> (\<forall>r. addUploadRequest r (snd (Finalize (w, wd))) =
            (Some (AfterFinalized r), snd (Finalize (w, wd))))
    \<and> (fst (Finalize (w, wd)) \<noteq> None \<longrightarrow>
          updates (fst (snd (Finalize (w, wd)))) = updates w @ [finalizeRequest])
    \<and> (\<not> deadline wd (length (trace wd)) \<longrightarrow>
          (\<exists>k. 0 < k \<and> k \<le> rpcRetrySteps \<and>
             trace (snd (snd (Finalize (w, wd)))) =
               trace wd @ replicate k (UploadBatch
                 \<lparr>ub_Parent = invocationName w, ub_ResumeToken = resumeToken w,
                  ub_NextResumeToken = tokens wd (generated wd),
                  ub_AuthorizationToken = authToken w,
                  ub_UploadRequests = updates w @ [finalizeRequest]\<rparr>)))"
proof -
  let ?w = "w\<lparr>finalized := True, updates := updates w @ [finalizeRequest]\<rparr>"
  let ?b = "\<lparr>ub_Parent = invocationName w, ub_ResumeToken = resumeToken w,
                  ub_NextResumeToken = tokens wd (generated wd),
                  ub_AuthorizationToken = authToken w,
                  ub_UploadRequests = updates w @ [finalizeRequest]\<rparr>"
  have 1: "Finalize (w, wd) = flushUpdates (?w, wd)"
    using assms by (simp add: Finalize_def addUploadRequest_def Let_def)
  obtain err w' wd' where run: "flushUpdates (?w, wd) = (err, (w', wd'))"
    by (metis surj_pair)
  note out = flushUpdates_effect[OF run]
  from out have fin: "finalized w'" by simp
  from out have kept: "err \<noteq> None \<longrightarrow> updates w' = updates w @ [finalizeRequest]" by simp
  have called: "\<exists>k. 0 < k \<and> k \<le> rpcRetrySteps \<and> trace wd' = trace wd @ replicate k (UploadBatch ?b)"
    if nd: "\<not> deadline wd (length (trace wd))"
  proof -
    from run have loop: "ExponentialBackoffWithContext (Suc 7) (flushUpdates_attempt ?b)
        (?w\<lparr>resumeToken := tokens wd (generated wd)\<rparr>, wd\<lparr>generated := Suc (generated wd)\<rparr>) =
        (err, (w', wd'))"
      by (simp add: flushUpdates_def uploadBatchRequest_def resumeToken_func_def
          rpcRetrySteps_def invocationName_def)
    have "\<not> deadline (wd\<lparr>generated := Suc (generated wd)\<rparr>)
        (length (trace (wd\<lparr>generated := Suc (generated wd)\<rparr>)))"
      using nd by simp
    from flush_loop_first_call[OF this loop] show ?thesis
      by (auto simp: rpcRetrySteps_def)
  qed
  from 1 run fin kept called show ?thesis
    by (simp add: addUploadRequest_finalized)
qed

theorem Finalize_latches_then_flushes_witness:
  "Finalize (opened_writer\<lparr>updates := [default_request]\<rparr>,
       scripted_world [] (RpcError (StatusError codes_NotFound))) =
     (Some (StatusError codes_NotFound),
      opened_writer\<lparr>resumeToken := ''t'', updates := [default_request, finalizeRequest],
         finalized := True\<rparr>,
      (scripted_world [] (RpcError (StatusError codes_NotFound)))
       \<lparr>generated := 1,
        trace := [UploadBatch
           \<lparr>ub_Parent = ''invocations/inv'', ub_ResumeToken = ''start'',
            ub_NextResumeToken = ''t'', ub_AuthorizationToken = ''auth'',
            ub_UploadRequests = [default_request, finalizeRequest]\<rparr>]\<rparr>)
   \<and> fst (addUploadRequest default_request
        (snd (Finalize (opened_writer\<lparr>updates := [default_request]\<rparr>,
           scripted_world [] (RpcError (StatusError codes_NotFound)))))) =
      Some (AfterFinalized default_request)"
proof -
  have nf: "\<not> finalized (opened_writer\<lparr>updates := [default_request]\<rparr>)"
    by (simp add: opened_writer_def)
  from Finalize_latches_then_flushes[OF nf,
      of "scripted_world [] (RpcError (StatusError codes_NotFound))"]
  show ?thesis
    by (simp add: flush_simps addUploadRequest_def)
qed

section \<open>Writes after finalize\<close>

text \<open>
  Claim C5, as the code has it. Once the latch is set, \<^verbatim>\<open>addUploadRequest\<close> returns
  its error for every request without a remote call and without touching the writer;
  so does a second \<^verbatim>\<open>Finalize\<close>, and so does each of the four write operations
  whenever it is handed a resource (not nil) and, for \<^verbatim>\<open>WriteConfiguration\<close>, the
  configuration carries an identifier: the state comes back as it went in.
\<close>

theorem writes_after_finalize_rejected:
  assumes "finalized w"
  shows "addUploadRequest r (w, wd) = (Some (AfterFinalized r), (w, wd))
    \<and> Finalize (w, wd) = (Some (AfterFinalized finalizeRequest), (w, wd))
    \<and> (\<forall>i. cfg_Id c = Some i \<longrightarrow>
          (\<exists>q. WriteConfiguration (Some c) (w, wd) = Inr (Some (AfterFinalized q), (w, wd))))
    \<and> (\<exists>q. WriteTarget (Some t) (w, wd) = Inr (Some (AfterFinalized q), (w, wd)))
    \<and> (\<exists>q. WriteConfiguredTarget (Some ct) (w, wd) = Inr (Some (AfterFinalized q), (w, wd)))
    \<and> (\<exists>q. WriteAction (Some a) (w, wd) = Inr (Some (AfterFinalized q), (w, wd)))"
  using assms
  by (simp add: addUploadRequest_finalized Finalize_def WriteConfiguration_def
      WriteTarget_def WriteConfiguredTarget_def WriteAction_def
      createConfigurationUploadRequest_def createTargetUploadRequest_def
      createConfiguredTargetUploadRequest_def createActionUploadRequest_def)

theorem writes_after_finalize_rejected_witness:
  "WriteConfiguration (Some default_configuration)
      (opened_writer\<lparr>finalized := True\<rparr>, scripted_world [] (Response [])) =
     Inr (Some (AfterFinalized default_request),
          (opened_writer\<lparr>finalized := True\<rparr>, scripted_world [] (Response [])))
   \<and> Finalize (opened_writer\<lparr>finalized := True\<rparr>, scripted_world [] (Response [])) =
     (Some (AfterFinalized finalizeRequest),
      (opened_writer\<lparr>finalized := True\<rparr>, scripted_world [] (Response [])))"
proof -
  have f: "finalized (opened_writer\<lparr>finalized := True\<rparr>)" by simp
  from writes_after_finalize_rejected[OF f, of default_request "scripted_world [] (Response [])"
      default_configuration]
  show ?thesis
    by (simp add: WriteConfiguration_def createConfigurationUploadRequest_def
        default_configuration_def default_request_def)
qed

text \<open>
  The claim for every write operation fails where the request cannot be built: the
  builder runs before \<^verbatim>\<open>addUploadRequest\<close> looks at the latch. On a finalized
  writer, \<^verbatim>\<open>WriteTarget\<close> with a nil target and \<^verbatim>\<open>WriteConfiguration\<close> with a
  configuration whose identifier is nil panic; they do not return an error.
\<close>

theorem WriteConfiguration_after_finalize_counterexample:
  "finalized (opened_writer\<lparr>finalized := True\<rparr>)
   \<and> WriteTarget None (opened_writer\<lparr>finalized := True\<rparr>, scripted_world [] (Response [])) =
     Inl NilPointerDereference
   \<and> WriteConfiguration (Some (default_configuration\<lparr>cfg_Id := None\<rparr>))
      (opened_writer\<lparr>finalized := True\<rparr>, scripted_world [] (Response [])) =
     Inl NilPointerDereference"
  by (simp add: WriteConfiguration_def createConfigurationUploadRequest_def
      WriteTarget_def createTargetUploadRequest_def)

section \<open>Nil identifiers\<close>

text \<open>
  Claim C10. \<^verbatim>\<open>WriteConfiguration\<close> with a configuration whose \<^verbatim>\<open>Id\<close> is nil
  panics while it builds the request, before the writer is used; with an identifier it
  appends the request built from it. \<^verbatim>\<open>WriteTarget\<close>,
  \<^verbatim>\<open>WriteConfiguredTarget\<close> and \<^verbatim>\<open>WriteAction\<close> accept a nil \<^verbatim>\<open>Id\<close>: their
  getters give empty strings and the request is appended.
\<close>

theorem nil_Id_panics_only_in_WriteConfiguration:
  "createConfigurationUploadRequest (Some (c\<lparr>cfg_Id := None\<rparr>)) = Inl NilPointerDereference
   \<and> WriteConfiguration (Some (c\<lparr>cfg_Id := None\<rparr>)) s = Inl NilPointerDereference
   \<and> WriteConfiguration (Some (c\<lparr>cfg_Id := Some i\<rparr>)) s =
       Inr (addUploadRequest
         \<lparr>req_Id = Some \<lparr>TargetId = [], ConfigurationId = cfg_ConfigurationId i, ActionId = []\<rparr>,
          req_UploadOperation = CREATE,
          req_Resource = UploadRequest_Configuration (c\<lparr>cfg_Id := None\<rparr>)\<rparr> s)
   \<and> WriteTarget (Some (t\<lparr>tgt_Id := None\<rparr>)) s =
       Inr (addUploadRequest
         \<lparr>req_Id = Some \<lparr>TargetId = [], ConfigurationId = [], ActionId = []\<rparr>,
          req_UploadOperation = CREATE,
          req_Resource = UploadRequest_Target (t\<lparr>tgt_Id := None\<rparr>)\<rparr> s)
   \<and> WriteConfiguredTarget (Some (ct\<lparr>ct_Id := None\<rparr>)) s =
       Inr (addUploadRequest
         \<lparr>req_Id = Some \<lparr>TargetId = [], ConfigurationId = [], ActionId = []\<rparr>,
          req_UploadOperation = CREATE,
          req_Resource = UploadRequest_ConfiguredTarget (ct\<lparr>ct_Id := None\<rparr>)\<rparr> s)
   \<and> WriteAction (Some (a\<lparr>act_Id := None\<rparr>)) s =
       Inr (addUploadRequest
         \<lparr>req_Id = Some \<lparr>TargetId = [], ConfigurationId = [], ActionId = []\<rparr>,
          req_UploadOperation = CREATE,
          req_Resource = UploadRequest_Action (a\<lparr>act_Id := None\<rparr>)\<rparr> s)"
  by (simp add: WriteConfiguration_def
      WriteTarget_def WriteConfiguredTarget_def WriteAction_def
      createConfigurationUploadRequest_def createTargetUploadRequest_def
      createConfiguredTargetUploadRequest_def createActionUploadRequest_def)

theorem nil_Id_panics_only_in_WriteConfiguration_witness:
  "WriteConfiguration (Some \<lparr>cfg_Id = None, cfg_body = ''attributes''\<rparr>)
      (opened_writer, scripted_world [] (Response [])) = Inl NilPointerDereference
   \<and> WriteTarget (Some \<lparr>tgt_Id = None, tgt_body = ''attributes''\<rparr>)
      (opened_writer, scripted_world [] (Response [])) =
       Inr (None,
         opened_writer\<lparr>updates :=
           [\<lparr>req_Id = Some \<lparr>TargetId = [], ConfigurationId = [], ActionId = []\<rparr>,
             req_UploadOperation = CREATE,
             req_Resource = UploadRequest_Target \<lparr>tgt_Id = None, tgt_body = ''attributes''\<rparr>\<rparr>]\<rparr>,
         scripted_world [] (Response []))"
  using nil_Id_panics_only_in_WriteConfiguration
    [of "\<lparr>cfg_Id = None, cfg_body = ''attributes''\<rparr>"
        "(opened_writer, scripted_world [] (Response []))"
        "\<lparr>cfg_InvocationId = ''inv'', cfg_ConfigurationId = ''default''\<rparr>"
        "\<lparr>tgt_Id = None, tgt_body = ''attributes''\<rparr>"]
  by (simp add: addUploadRequest_def opened_writer_def batchSize_def)

section \<open>Batching\<close>

lemma batchSize_pos: "0 < batchSize"
  by (simp add: batchSize_def)

lemma flushUpdates_accepted:
  assumes "\<not> deadline wd (length (trace wd))"
    and "service wd (length (trace wd)) = Response x"
  shows "flushUpdates (w, wd) =
    (None,
     w\<lparr>resumeToken := tokens wd (generated wd), updates := []\<rparr>,
     wd\<lparr>generated := Suc (generated wd),
        trace := trace wd @
          [UploadBatch \<lparr>ub_Parent = invocationName w, ub_ResumeToken = resumeToken w,
             ub_NextResumeToken = tokens wd (generated wd),
             ub_AuthorizationToken = authToken w, ub_UploadRequests = updates w\<rparr>]\<rparr>)"
  using assms
  by (simp add: flushUpdates_def uploadBatchRequest_def resumeToken_func_def retry_first_step
      ctx_done_def flush_attempt_cases)

lemma addUploadRequest_below:
  assumes "\<not> finalized w" and "req_UploadOperation r \<noteq> FINALIZE"
    and "Suc (length (updates w)) < batchSize"
  shows "addUploadRequest r (w, wd) = (None, (w\<lparr>updates := updates w @ [r]\<rparr>, wd))"
  using assms by (simp add: addUploadRequest_def Let_def)

lemma addUploadRequest_full:
  assumes "\<not> finalized w" and "req_UploadOperation r \<noteq> FINALIZE"
    and "batchSize \<le> Suc (length (updates w))"
  shows "addUploadRequest r (w, wd) = flushUpdates (w\<lparr>updates := updates w @ [r]\<rparr>, wd)"
  using assms by (simp add: addUploadRequest_def Let_def)

lemma appends_all_accepted:
  assumes "\<forall>n. \<not> deadline wd n" and "\<forall>n. \<exists>x. service wd n = Response x"
    and "\<not> finalized w" and "length (updates w) < batchSize"
    and "\<forall>r\<in>set rs. req_UploadOperation r \<noteq> FINALIZE"
  shows "\<exists>w' wd' bs.
      addUploadRequests rs (w, wd) = (replicate (length rs) None, (w', wd'))
    \<and> trace wd' = trace wd @ map UploadBatch bs
    \<and> map ub_UploadRequests bs =
        batches (length (updates w @ rs) div batchSize) (updates w @ rs)
    \<and> updates w' =
        drop (batchSize * (length (updates w @ rs) div batchSize)) (updates w @ rs)
    \<and> \<not> finalized w' \<and> invID w' = invID w \<and> authToken w' = authToken w
    \<and> service wd' = service wd \<and> deadline wd' = deadline wd"
  using assms
proof (induction rs arbitrary: w wd)
  case Nil
  from Nil.prems(4) have "length (updates w) div batchSize = 0" by simp
  with Nil.prems(3) show ?case by simp
next
  case (Cons r rs)
  from Cons.prems have r: "req_UploadOperation r \<noteq> FINALIZE"
    and rs: "\<forall>r\<in>set rs. req_UploadOperation r \<noteq> FINALIZE" by simp_all
  show ?case
  proof (cases "Suc (length (updates w)) < batchSize")
    case True
    let ?w1 = "w\<lparr>updates := updates w @ [r]\<rparr>"
    have step: "addUploadRequest r (w, wd) = (None, (?w1, wd))"
      using Cons.prems(3) r True by (rule addUploadRequest_below)
    have "\<not> finalized ?w1" "length (updates ?w1) < batchSize"
      using Cons.prems(3) True by simp_all
    from Cons.IH[OF Cons.prems(1,2) this rs] obtain w' wd' bs where
      ih: "addUploadRequests rs (?w1, wd) = (replicate (length rs) None, (w', wd'))"
        "trace wd' = trace wd @ map UploadBatch bs"
        "map ub_UploadRequests bs =
          batches (length (updates ?w1 @ rs) div batchSize) (updates ?w1 @ rs)"
        "updates w' =
          drop (batchSize * (length (updates ?w1 @ rs) div batchSize)) (updates ?w1 @ rs)"
        "\<not> finalized w'" "invID w' = invID ?w1" "authToken w' = authToken ?w1"
        "service wd' = service wd" "deadline wd' = deadline wd"
      by blast
    show ?thesis
      using step ih by (intro exI[of _ w'] exI[of _ wd'] exI[of _ bs]) simp
  next
    case False
    with Cons.prems(4) have full: "Suc (length (updates w)) = batchSize" by simp
    let ?w1 = "w\<lparr>updates := updates w @ [r]\<rparr>"
    let ?b = "\<lparr>ub_Parent = invocationName ?w1, ub_ResumeToken = resumeToken ?w1,
             ub_NextResumeToken = tokens wd (generated wd),
             ub_AuthorizationToken = authToken ?w1, ub_UploadRequests = updates ?w1\<rparr>"
    let ?w2 = "?w1\<lparr>resumeToken := tokens wd (generated wd), updates := []\<rparr>"
    let ?wd2 = "wd\<lparr>generated := Suc (generated wd), trace := trace wd @ [UploadBatch ?b]\<rparr>"
    from Cons.prems(2) obtain x where x: "service wd (length (trace wd)) = Response x"
      by blast
    have "addUploadRequest r (w, wd) = flushUpdates (?w1, wd)"
      using Cons.prems(3) r full by (intro addUploadRequest_full) simp_all
    also have "\<dots> = (None, (?w2, ?wd2))"
      using Cons.prems(1) x by (intro flushUpdates_accepted) simp_all
    finally have step: "addUploadRequest r (w, wd) = (None, (?w2, ?wd2))" .
    have good: "\<forall>n. \<not> deadline ?wd2 n" "\<forall>n. \<exists>x. service ?wd2 n = Response x"
      using Cons.prems(1,2) by simp_all
    have "\<not> finalized ?w2" "length (updates ?w2) < batchSize"
      using Cons.prems(3) batchSize_pos by simp_all
    from Cons.IH[OF good this rs] obtain w' wd' bs where
      ih: "addUploadRequests rs (?w2, ?wd2) = (replicate (length rs) None, (w', wd'))"
        "trace wd' = trace ?wd2 @ map UploadBatch bs"
        "map ub_UploadRequests bs =
          batches (length (updates ?w2 @ rs) div batchSize) (updates ?w2 @ rs)"
        "updates w' =
          drop (batchSize * (length (updates ?w2 @ rs) div batchSize)) (updates ?w2 @ rs)"
        "\<not> finalized w'" "invID w' = invID ?w2" "authToken w' = authToken ?w2"
        "service wd' = service ?wd2" "deadline wd' = deadline ?wd2"
      by blast
    have len: "length (updates w @ r # rs) = batchSize + length rs"
      using full by simp
    have k: "length (updates w @ r # rs) div batchSize = Suc (length rs div batchSize)"
    proof -
      have "(batchSize + length rs) div batchSize = Suc (length rs div batchSize)"
        using batchSize_pos div_add_self1[of batchSize "length rs"] by simp
      then show ?thesis by (simp only: len)
    qed
    have tk: "take batchSize (updates w @ r # rs) = updates w @ [r]"
      by (simp add: full[symmetric])
    have dr: "drop batchSize (updates w @ r # rs) = rs"
      by (simp add: full[symmetric])
    have bat: "batches (length (updates w @ r # rs) div batchSize) (updates w @ r # rs) =
        (updates w @ [r]) # batches (length rs div batchSize) rs"
      by (simp only: k batches.simps tk dr)
    have left: "drop (batchSize * (length (updates w @ r # rs) div batchSize)) (updates w @ r # rs) =
        drop (batchSize * (length rs div batchSize)) rs"
    proof -
      have "drop (batchSize * Suc (length rs div batchSize)) (updates w @ r # rs) =
          drop (batchSize * (length rs div batchSize)) (drop batchSize (updates w @ r # rs))"
        by (simp only: drop_drop mult_Suc_right add.commute)
      then show ?thesis by (simp only: k dr)
    qed
    show ?thesis
      using step ih bat left
      by (intro exI[of _ w'] exI[of _ wd'] exI[of _ "?b # bs"]) simp
  qed
qed

lemma length_batches [simp]: "length (batches k xs) = k"
  by (induction k arbitrary: xs) simp_all

lemma batches_full:
  "k * batchSize \<le> length xs \<Longrightarrow> b \<in> set (batches k xs) \<Longrightarrow> length b = batchSize"
proof (induction k arbitrary: xs)
  case 0
  then show ?case by simp
next
  case (Suc k)
  from Suc.prems(1) have "batchSize \<le> length xs" "k * batchSize \<le> length (drop batchSize xs)"
    by simp_all
  with Suc.IH[of "drop batchSize xs"] Suc.prems(2) show ?case by auto
qed

lemma addUploadRequests_Cons_result:
  assumes "addUploadRequests (r # rs) s = (es, s'')"
  obtains e s' es' where "addUploadRequest r s = (e, s')"
    and "addUploadRequests rs s' = (es', s'')" and "es = e # es'"
  using assms by (auto split: prod.splits)

lemma appends_all_nil:
  assumes "\<not> finalized w" and "length (updates w) < batchSize"
    and "\<forall>r\<in>set rs. req_UploadOperation r \<noteq> FINALIZE"
    and "addUploadRequests rs (w, wd) = (es, (w', wd'))"
    and "\<forall>e\<in>set es. e = None"
  shows "\<exists>bs ks. length ks = length bs \<and> (\<forall>k\<in>set ks. 0 < k \<and> k \<le> rpcRetrySteps)
    \<and> trace wd' = trace wd @ concat (map2 (\<lambda>k b. replicate k (UploadBatch b)) ks bs)
    \<and> map ub_UploadRequests bs =
        batches (length (updates w @ rs) div batchSize) (updates w @ rs)
    \<and> updates w' =
        drop (batchSize * (length (updates w @ rs) div batchSize)) (updates w @ rs)
    \<and> \<not> finalized w'"
  using assms
proof (induction rs arbitrary: w wd es)
  case Nil
  from Nil.prems(2) have "length (updates w) div batchSize = 0" by simp
  with Nil.prems(1,4) show ?case
    by (intro exI[of _ "[]"]) simp
next
  case (Cons r rs)
  from Cons.prems(3) have r: "req_UploadOperation r \<noteq> FINALIZE"
    and rs: "\<forall>r\<in>set rs. req_UploadOperation r \<noteq> FINALIZE" by simp_all
  from Cons.prems(4) obtain e s1 es1 where
    first: "addUploadRequest r (w, wd) = (e, s1)"
    and rest: "addUploadRequests rs s1 = (es1, (w', wd'))" and es: "es = e # es1"
    by (rule addUploadRequests_Cons_result)
  from es Cons.prems(5) have e: "e = None" and es1: "\<forall>e\<in>set es1. e = None" by simp_all
  let ?w1 = "w\<lparr>updates := updates w @ [r]\<rparr>"
  show ?case
  proof (cases "Suc (length (updates w)) < batchSize")
    case True
    have "addUploadRequest r (w, wd) = (None, (?w1, wd))"
      using Cons.prems(1) r True by (rule addUploadRequest_below)
    with first have s1: "s1 = (?w1, wd)" by simp
    have "\<not> finalized ?w1" "length (updates ?w1) < batchSize"
      using Cons.prems(1) True by simp_all
    from Cons.IH[OF this rs rest[unfolded s1] es1] show ?thesis by simp
  next
    case False
    with Cons.prems(2) have full: "Suc (length (updates w)) = batchSize" by simp
    let ?b = "\<lparr>ub_Parent = invocationName ?w1, ub_ResumeToken = resumeToken ?w1,
             ub_NextResumeToken = tokens wd (generated wd),
             ub_AuthorizationToken = authToken ?w1, ub_UploadRequests = updates ?w1\<rparr>"
    obtain w2 wd2 where s1: "s1 = (w2, wd2)" by (cases s1)
    have "addUploadRequest r (w, wd) = flushUpdates (?w1, wd)"
      using Cons.prems(1) r full by (intro addUploadRequest_full) simp_all
    with first e s1 have run: "flushUpdates (?w1, wd) = (None, (w2, wd2))" by simp
    from flushUpdates_effect[OF run] obtain k where
      w2: "w2 = ?w1\<lparr>resumeToken := tokens wd (generated wd), updates := []\<rparr>"
      and k: "k \<le> rpcRetrySteps" "0 < k"
      and wd2: "wd2 = wd\<lparr>generated := Suc (generated wd),
                    trace := trace wd @ replicate k (UploadBatch ?b)\<rparr>"
      by auto
    have "\<not> finalized w2" "length (updates w2) < batchSize"
      using Cons.prems(1) batchSize_pos w2 by simp_all
    from Cons.IH[OF this rs rest[unfolded s1] es1] obtain bs ks where
      ih: "length ks = length bs" "\<forall>k\<in>set ks. 0 < k \<and> k \<le> rpcRetrySteps"
        "trace wd' = trace wd2 @ concat (map2 (\<lambda>k b. replicate k (UploadBatch b)) ks bs)"
        "map ub_UploadRequests bs =
          batches (length (updates w2 @ rs) div batchSize) (updates w2 @ rs)"
        "updates w' =
          drop (batchSize * (length (updates w2 @ rs) div batchSize)) (updates w2 @ rs)"
        "\<not> finalized w'"
      by blast
    have len: "length (updates w @ r # rs) = batchSize + length rs"
      using full by simp
    have kk: "length (updates w @ r # rs) div batchSize = Suc (length rs div batchSize)"
    proof -
      have "(batchSize + length rs) div batchSize = Suc (length rs div batchSize)"
        using batchSize_pos div_add_self1[of batchSize "length rs"] by simp
      then show ?thesis by (simp only: len)
    qed
    have tk: "take batchSize (updates w @ r # rs) = updates w @ [r]"
      by (simp add: full[symmetric])
    have dr: "drop batchSize (updates w @ r # rs) = rs"
      by (simp add: full[symmetric])
    have bat: "batches (length (updates w @ r # rs) div batchSize) (updates w @ r # rs) =
        (updates w @ [r]) # batches (length rs div batchSize) rs"
      by (simp only: kk batches.simps tk dr)
    have left: "drop (batchSize * (length (updates w @ r # rs) div batchSize)) (updates w @ r # rs) =
        drop (batchSize * (length rs div batchSize)) rs"
    proof -
      have "drop (batchSize * Suc (length rs div batchSize)) (updates w @ r # rs) =
          drop (batchSize * (length rs div batchSize)) (drop batchSize (updates w @ r # rs))"
        by (simp only: drop_drop mult_Suc_right add.commute)
      then show ?thesis by (simp only: kk dr)
    qed
    show ?thesis
      using ih k bat left
      by (intro exI[of _ "?b # bs"] exI[of _ "k # ks"]) (simp add: w2 wd2)
  qed
qed

text \<open>
  Claim C3, as the code has it. An append of a request other than finalize to a writer
  that is not finalized flushes exactly when it brings the buffer to \<open>batchSize\<close>
  requests or more; below that it returns nil and makes no remote call. Start with
  fewer than \<open>batchSize\<close> requests buffered and let every append of a sequence return
  nil, so that every flush issued succeeded. Then the buffer holds fewer than
  \<open>batchSize\<close> requests after the sequence, the flushes are as many as the buffered and
  appended requests fill blocks of \<open>batchSize\<close>, each flush carries exactly the next
  block (on each of its one to eight remote calls), and what remains buffered is the
  rest after the last full block.
\<close>

theorem buffer_bounded_while_flushes_succeed:
  assumes "\<not> finalized w" and "length (updates w) < batchSize"
    and "\<forall>r\<in>set rs. req_UploadOperation r \<noteq> FINALIZE"
    and "addUploadRequests rs (w, wd) = (es, (w', wd'))"
    and "\<forall>e\<in>set es. e = None"
  shows "length (updates w') < batchSize \<and> \<not> finalized w'
    \<and> updates w' =
        drop (batchSize * ((length (updates w) + length rs) div batchSize)) (updates w @ rs)
    \<and> (\<exists>bs ks. length ks = length bs \<and> (\<forall>k\<in>set ks. 0 < k \<and> k \<le> rpcRetrySteps)
          \<and> trace wd' = trace wd @ concat (map2 (\<lambda>k b. replicate k (UploadBatch b)) ks bs)
          \<and> length bs = (length (updates w) + length rs) div batchSize
          \<and> map ub_UploadRequests bs = batches (length bs) (updates w @ rs)
          \<and> (\<forall>b\<in>set bs. length (ub_UploadRequests b) = batchSize))
    \<and> (\<forall>q v vd. \<not> finalized v \<and> req_UploadOperation q \<noteq> FINALIZE \<longrightarrow>
          addUploadRequest q (v, vd) =
            (if Suc (length (updates v)) < batchSize
             then (None, (v\<lparr>updates := updates v @ [q]\<rparr>, vd))
             else flushUpdates (v\<lparr>updates := updates v @ [q]\<rparr>, vd)))"
proof -
  let ?n = "(length (updates w) + length rs) div batchSize"
  from appends_all_nil[OF assms] obtain bs ks where
    seq: "length ks = length bs" "\<forall>k\<in>set ks. 0 < k \<and> k \<le> rpcRetrySteps"
      "trace wd' = trace wd @ concat (map2 (\<lambda>k b. replicate k (UploadBatch b)) ks bs)"
      "map ub_UploadRequests bs =
        batches (length (updates w @ rs) div batchSize) (updates w @ rs)"
      "updates w' =
        drop (batchSize * (length (updates w @ rs) div batchSize)) (updates w @ rs)"
      "\<not> finalized w'"
    by blast
  from seq(4) have "length (map ub_UploadRequests bs) = ?n"
    by (simp only: length_batches length_append)
  then have n: "length bs = ?n" by simp
  from seq(4) n have blocks: "map ub_UploadRequests bs = batches (length bs) (updates w @ rs)"
    by simp
  have size: "length (ub_UploadRequests b) = batchSize" if "b \<in> set bs" for b
  proof -
    from that have "ub_UploadRequests b \<in> set (batches ?n (updates w @ rs))"
      using blocks n by (metis imageI set_map)
    moreover have "?n * batchSize \<le> length (updates w @ rs)" by simp
    ultimately show ?thesis by (rule batches_full[rotated])
  qed
  have rest: "updates w' = drop (batchSize * ?n) (updates w @ rs)"
    using seq(5) by simp
  have "length (updates w') = length (updates w @ rs) - batchSize * ?n"
    by (simp only: rest length_drop)
  also have "length (updates w @ rs) = length (updates w) + length rs" by simp
  finally have "length (updates w') = (length (updates w) + length rs) mod batchSize"
    by (simp add: minus_mult_div_eq_mod)
  then have below: "length (updates w') < batchSize"
    using batchSize_pos by simp
  have step: "addUploadRequest q (v, vd) =
            (if Suc (length (updates v)) < batchSize
             then (None, (v\<lparr>updates := updates v @ [q]\<rparr>, vd))
             else flushUpdates (v\<lparr>updates := updates v @ [q]\<rparr>, vd))"
    if "\<not> finalized v" "req_UploadOperation q \<noteq> FINALIZE" for q v vd
    using that by (simp add: addUploadRequest_def Let_def)
  from seq(1,2,3) n blocks size have calls:
    "\<exists>bs ks. length ks = length bs \<and> (\<forall>k\<in>set ks. 0 < k \<and> k \<le> rpcRetrySteps)
          \<and> trace wd' = trace wd @ concat (map2 (\<lambda>k b. replicate k (UploadBatch b)) ks bs)
          \<and> length bs = ?n
          \<and> map ub_UploadRequests bs = batches (length bs) (updates w @ rs)
          \<and> (\<forall>b\<in>set bs. length (ub_UploadRequests b) = batchSize)"
    by blast
  from below seq(6) rest calls step show ?thesis by blast
qed

theorem buffer_bounded_while_flushes_succeed_witness:
  "addUploadRequests [default_request, default_request]
      (opened_writer\<lparr>updates := replicate 99 default_request\<rparr>, scripted_world [] (Response [])) =
     ([None, None],
      opened_writer\<lparr>resumeToken := ''t'', updates := [default_request]\<rparr>,
      (scripted_world [] (Response []))
        \<lparr>generated := Suc 0,
         trace := [UploadBatch
           \<lparr>ub_Parent = ''invocations/inv'', ub_ResumeToken = ''start'',
            ub_NextResumeToken = ''t'', ub_AuthorizationToken = ''auth'',
            ub_UploadRequests = replicate 99 default_request @ [default_request]\<rparr>]\<rparr>)
   \<and> length (updates (opened_writer\<lparr>resumeToken := ''t'', updates := [default_request]\<rparr>))
       < batchSize"
proof -
  let ?w = "opened_writer\<lparr>updates := replicate 99 default_request\<rparr>"
  let ?wd = "scripted_world [] (Response [])"
  have ops: "req_UploadOperation default_request \<noteq> FINALIZE"
    by (simp add: default_request_def)
  have 1: "\<not> finalized ?w" by (simp add: opened_writer_def)
  have 2: "length (updates ?w) < batchSize" by (simp add: batchSize_def)
  have 3: "\<forall>r\<in>set [default_request, default_request]. req_UploadOperation r \<noteq> FINALIZE"
    using ops by simp
  have first: "addUploadRequest default_request (?w, ?wd) =
      (None, opened_writer\<lparr>resumeToken := ''t'', updates := []\<rparr>,
       ?wd\<lparr>generated := Suc 0,
         trace := [UploadBatch
           \<lparr>ub_Parent = ''invocations/inv'', ub_ResumeToken = ''start'',
            ub_NextResumeToken = ''t'', ub_AuthorizationToken = ''auth'',
            ub_UploadRequests = replicate 99 default_request @ [default_request]\<rparr>]\<rparr>)"
    using ops
    by (simp add: addUploadRequest_def Let_def batchSize_def flush_simps
        replicate_append_same)
  have second: "addUploadRequest default_request
      (opened_writer\<lparr>resumeToken := ''t'', updates := []\<rparr>,
       ?wd\<lparr>generated := Suc 0,
         trace := [UploadBatch
           \<lparr>ub_Parent = ''invocations/inv'', ub_ResumeToken = ''start'',
            ub_NextResumeToken = ''t'', ub_AuthorizationToken = ''auth'',
            ub_UploadRequests = replicate 99 default_request @ [default_request]\<rparr>]\<rparr>) =
      (None, opened_writer\<lparr>resumeToken := ''t'', updates := [default_request]\<rparr>,
       ?wd\<lparr>generated := Suc 0,
         trace := [UploadBatch
           \<lparr>ub_Parent = ''invocations/inv'', ub_ResumeToken = ''start'',
            ub_NextResumeToken = ''t'', ub_AuthorizationToken = ''auth'',
            ub_UploadRequests = replicate 99 default_request @ [default_request]\<rparr>]\<rparr>)"
    using ops
    by (simp add: addUploadRequest_def Let_def batchSize_def opened_writer_def)
  have 4: "addUploadRequests [default_request, default_request] (?w, ?wd) =
     ([None, None],
      opened_writer\<lparr>resumeToken := ''t'', updates := [default_request]\<rparr>,
      ?wd\<lparr>generated := Suc 0,
         trace := [UploadBatch
           \<lparr>ub_Parent = ''invocations/inv'', ub_ResumeToken = ''start'',
            ub_NextResumeToken = ''t'', ub_AuthorizationToken = ''auth'',
            ub_UploadRequests = replicate 99 default_request @ [default_request]\<rparr>]\<rparr>)"
    by (simp add: first second)
  have 5: "\<forall>e\<in>set [None, None :: error option]. e = None" by simp
  from buffer_bounded_while_flushes_succeed[OF 1 2 3 4 5] 4 show ?thesis by simp
qed

lemma flushUpdates_rejected:
  assumes "\<not> deadline wd (length (trace wd))"
    and "service wd (length (trace wd)) = RpcError e"
    and "IsPermanentError (Some e)"
  shows "flushUpdates (w, wd) =
    (Some e,
     w\<lparr>resumeToken := tokens wd (generated wd)\<rparr>,
     wd\<lparr>generated := Suc (generated wd),
        trace := trace wd @
          [UploadBatch \<lparr>ub_Parent = invocationName w, ub_ResumeToken = resumeToken w,
             ub_NextResumeToken = tokens wd (generated wd),
             ub_AuthorizationToken = authToken w, ub_UploadRequests = updates w\<rparr>]\<rparr>)"
  using assms
  by (simp add: flushUpdates_def uploadBatchRequest_def resumeToken_func_def retry_first_step
      ctx_done_def flush_attempt_cases)

lemma appends_all_rejected:
  assumes "\<forall>n. \<not> deadline wd n" and "\<forall>n. service wd n = RpcError e"
    and "IsPermanentError (Some e)"
    and "\<not> finalized w"
    and "\<forall>r\<in>set rs. req_UploadOperation r \<noteq> FINALIZE"
  shows "\<exists>w' wd'. snd (addUploadRequests rs (w, wd)) = (w', wd')
    \<and> updates w' = updates w @ rs \<and> \<not> finalized w'
    \<and> (rs \<noteq> [] \<and> batchSize \<le> length (updates w @ rs) \<longrightarrow>
          (\<exists>b. last (trace wd') = UploadBatch b \<and> ub_UploadRequests b = updates w @ rs))"
  using assms(1,2,4,5)
proof (induction rs arbitrary: w wd)
  case Nil
  then show ?case by simp
next
  case (Cons r rs)
  from Cons.prems(4) have r: "req_UploadOperation r \<noteq> FINALIZE"
    and rs: "\<forall>r\<in>set rs. req_UploadOperation r \<noteq> FINALIZE" by simp_all
  let ?w1 = "w\<lparr>updates := updates w @ [r]\<rparr>"
  let ?b = "\<lparr>ub_Parent = invocationName ?w1, ub_ResumeToken = resumeToken ?w1,
             ub_NextResumeToken = tokens wd (generated wd),
             ub_AuthorizationToken = authToken ?w1, ub_UploadRequests = updates ?w1\<rparr>"
  let ?w2 = "?w1\<lparr>resumeToken := tokens wd (generated wd)\<rparr>"
  let ?wd2 = "wd\<lparr>generated := Suc (generated wd), trace := trace wd @ [UploadBatch ?b]\<rparr>"
  have first: "addUploadRequest r (w, wd) =
      (if Suc (length (updates w)) < batchSize then (None, (?w1, wd))
       else (Some e, (?w2, ?wd2)))"
  proof (cases "Suc (length (updates w)) < batchSize")
    case True
    with Cons.prems(3) r show ?thesis by (simp add: addUploadRequest_below)
  next
    case False
    then have "addUploadRequest r (w, wd) = flushUpdates (?w1, wd)"
      using Cons.prems(3) r by (intro addUploadRequest_full) simp_all
    also have "\<dots> = (Some e, (?w2, ?wd2))"
      using Cons.prems(1,2) assms(3) by (intro flushUpdates_rejected) simp_all
    finally show ?thesis using False by simp
  qed
  obtain e1 w1 wd1 where step: "addUploadRequest r (w, wd) = (e1, (w1, wd1))"
    by (metis surj_pair)
  with first have w1: "updates w1 = updates w @ [r]" "\<not> finalized w1"
    and world: "\<forall>n. \<not> deadline wd1 n" "\<forall>n. service wd1 n = RpcError e"
    and sent: "batchSize \<le> length (updates w @ [r]) \<longrightarrow>
        last (trace wd1) = UploadBatch ?b"
    using Cons.prems(1,2,3) by (auto split: if_splits)
  from Cons.IH[OF world w1(2) rs] obtain w' wd' where
    ih: "snd (addUploadRequests rs (w1, wd1)) = (w', wd')"
      "updates w' = updates w1 @ rs" "\<not> finalized w'"
      "rs \<noteq> [] \<and> batchSize \<le> length (updates w1 @ rs) \<longrightarrow>
          (\<exists>b. last (trace wd') = UploadBatch b \<and> ub_UploadRequests b = updates w1 @ rs)"
    by blast
  have res: "snd (addUploadRequests (r # rs) (w, wd)) = (w', wd')"
    using step ih(1) by (auto split: prod.splits)
  show ?case
  proof (cases "rs = []")
    case True
    with ih(1) have "w' = w1" "wd' = wd1" by simp_all
    with res w1 sent True show ?thesis by simp
  next
    case False
    with res ih w1 show ?thesis by simp
  qed
qed

text \<open>
  Without the condition that the flushes succeed the bound fails. The service rejects
  every batch with InvalidArgument: the flush of the 100th append fails and the buffer
  keeps its 100 requests; the 101st append is buffered as well and issues a flush that
  carries 101 requests.
\<close>

theorem buffer_exceeds_batchSize_counterexample:
  "length (updates (fst (snd (addUploadRequests (replicate 101 default_request)
      (opened_writer, scripted_world [] (RpcError (StatusError codes_InvalidArgument))))))) = 101
   \<and> (\<exists>b. last (trace (snd (snd (addUploadRequests (replicate 101 default_request)
          (opened_writer, scripted_world [] (RpcError (StatusError codes_InvalidArgument)))))))
        = UploadBatch b
      \<and> length (ub_UploadRequests b) = 101)
   \<and> batchSize = 100"
proof -
  let ?wd = "scripted_world [] (RpcError (StatusError codes_InvalidArgument))"
  let ?rs = "replicate 101 default_request"
  have 1: "\<forall>n. \<not> deadline ?wd n" by simp
  have 2: "\<forall>n. service ?wd n = RpcError (StatusError codes_InvalidArgument)" by simp
  have 3: "IsPermanentError (Some (StatusError codes_InvalidArgument))"
    by (simp add: IsPermanentError_def codes_defs)
  have 4: "\<not> finalized opened_writer" by (simp add: opened_writer_def)
  have 5: "\<forall>r\<in>set ?rs. req_UploadOperation r \<noteq> FINALIZE"
    by (simp add: default_request_def)
  from appends_all_rejected[OF 1 2 3 4 5] obtain w' wd' where
    r: "snd (addUploadRequests ?rs (opened_writer, ?wd)) = (w', wd')"
      "updates w' = updates opened_writer @ ?rs"
      "?rs \<noteq> [] \<and> batchSize \<le> length (updates opened_writer @ ?rs) \<longrightarrow>
          (\<exists>b. last (trace wd') = UploadBatch b
             \<and> ub_UploadRequests b = updates opened_writer @ ?rs)"
    by blast
  have "?rs \<noteq> []" by (simp add: replicate_empty)
  moreover have "batchSize \<le> length (updates opened_writer @ ?rs)"
    by (simp add: batchSize_def)
  ultimately obtain b where "last (trace wd') = UploadBatch b"
    "ub_UploadRequests b = updates opened_writer @ ?rs"
    using r(3) by blast
  with r(1,2) show ?thesis
    by (simp add: opened_writer_def batchSize_def)
qed

section \<open>A full upload\<close>

lemma perform_all_append:
  "perform_all (xs @ ys) s =
     (case perform_all xs s of
       Inl p \<Rightarrow> Inl p
     | Inr (es, s') \<Rightarrow>
         (case perform_all ys s' of
           Inl p \<Rightarrow> Inl p
         | Inr (es', s'') \<Rightarrow> Inr (es @ es', s'')))"
  by (induction xs arbitrary: s) (auto split: sum.splits prod.splits)

lemma WriteConfiguration_with_Id:
  assumes "cfg_Id c \<noteq> None"
  shows "WriteConfiguration (Some c) s =
      Inr (addUploadRequest (projr (createConfigurationUploadRequest (Some c))) s)"
    and "req_UploadOperation (projr (createConfigurationUploadRequest (Some c))) = CREATE"
  using assms
  by (auto simp: WriteConfiguration_def createConfigurationUploadRequest_def)

lemma perform_all_configurations:
  assumes "\<forall>c\<in>set cs. cfg_Id c \<noteq> None"
  shows "perform_all (map (\<lambda>c. Call_WriteConfiguration (Some c)) cs) s =
    Inr (addUploadRequests
          (map (\<lambda>c. projr (createConfigurationUploadRequest (Some c))) cs) s)"
  using assms
proof (induction cs arbitrary: s)
  case Nil
  then show ?case by simp
next
  case (Cons c cs)
  then have c: "cfg_Id c \<noteq> None" and cs: "\<forall>c\<in>set cs. cfg_Id c \<noteq> None" by simp_all
  show ?case
    by (simp add: WriteConfiguration_with_Id(1)[OF c] Cons.IH[OF cs] split: prod.splits)
qed

text \<open>
  Claim C9. On a writer with an empty buffer, 150 calls of \<^verbatim>\<open>WriteConfiguration\<close>
  (each configuration carrying an identifier) followed by \<^verbatim>\<open>Finalize\<close>, with the
  service accepting every call, all return nil and make exactly two remote calls: an
  \<^verbatim>\<open>UploadBatch\<close> with the requests of the first 100 configurations, then one with
  the requests of the other 50 and the finalize request, 51 in all. Afterwards the
  buffer is empty, the writer is finalized and every further append is refused.
\<close>

theorem hundred_fifty_then_finalize:
  assumes "length cs = 150" and "\<forall>c\<in>set cs. cfg_Id c \<noteq> None"
    and "\<forall>n. \<not> deadline wd n" and "\<forall>n. \<exists>x. service wd n = Response x"
    and "updates w = []" and "\<not> finalized w"
  shows "\<exists>w' wd' b1 b2.
      perform_all (map (\<lambda>c. Call_WriteConfiguration (Some c)) cs @ [Call_Finalize]) (w, wd) =
        Inr (replicate 151 None, (w', wd'))
    \<and> trace wd' = trace wd @ [UploadBatch b1, UploadBatch b2]
    \<and> ub_UploadRequests b1 =
        map (\<lambda>c. projr (createConfigurationUploadRequest (Some c))) (take 100 cs)
    \<and> length (ub_UploadRequests b1) = 100
    \<and> ub_UploadRequests b2 =
        map (\<lambda>c. projr (createConfigurationUploadRequest (Some c))) (drop 100 cs)
          @ [finalizeRequest]
    \<and> length (ub_UploadRequests b2) = 51
    \<and> updates w' = [] \<and> finalized w'
    \<and> (\<forall>r. addUploadRequest r (w', wd') = (Some (AfterFinalized r), (w', wd')))"
proof -
  let ?req = "\<lambda>c. projr (createConfigurationUploadRequest (Some c))"
  let ?rs = "map ?req cs"
  have ops: "\<forall>r\<in>set ?rs. req_UploadOperation r \<noteq> FINALIZE"
    using assms(2) by (auto simp: WriteConfiguration_with_Id(2))
  have len: "length (updates w @ ?rs) = 150" using assms(1,5) by simp
  have k: "length (updates w @ ?rs) div batchSize = Suc 0"
    by (simp only: len) (simp add: batchSize_def)
  have below: "length (updates w) < batchSize" using assms(5) by (simp add: batchSize_def)
  from appends_all_accepted[OF assms(3,4,6) below ops] obtain w1 wd1 bs where
    run: "addUploadRequests ?rs (w, wd) = (replicate (length ?rs) None, (w1, wd1))"
    and tr: "trace wd1 = trace wd @ map UploadBatch bs"
    and blocks: "map ub_UploadRequests bs =
        batches (length (updates w @ ?rs) div batchSize) (updates w @ ?rs)"
    and rest: "updates w1 =
        drop (batchSize * (length (updates w @ ?rs) div batchSize)) (updates w @ ?rs)"
    and nf: "\<not> finalized w1"
    and sv: "service wd1 = service wd" and dl: "deadline wd1 = deadline wd"
    by blast
  from blocks have "map ub_UploadRequests bs = [take batchSize ?rs]"
    by (simp only: k batches.simps) (simp add: assms(5))
  then obtain b1 where bs: "bs = [b1]" and b1: "ub_UploadRequests b1 = take batchSize ?rs"
    by auto
  have b1': "ub_UploadRequests b1 = map ?req (take 100 cs)"
    using b1 by (simp add: batchSize_def take_map)
  have rest': "updates w1 = map ?req (drop 100 cs)"
    using rest by (simp only: k) (simp add: assms(5) batchSize_def drop_map)
  let ?w2 = "w1\<lparr>finalized := True, updates := updates w1 @ [finalizeRequest]\<rparr>"
  let ?b2 = "\<lparr>ub_Parent = invocationName ?w2, ub_ResumeToken = resumeToken ?w2,
             ub_NextResumeToken = tokens wd1 (generated wd1),
             ub_AuthorizationToken = authToken ?w2, ub_UploadRequests = updates ?w2\<rparr>"
  let ?w3 = "?w2\<lparr>resumeToken := tokens wd1 (generated wd1), updates := []\<rparr>"
  let ?wd3 = "wd1\<lparr>generated := Suc (generated wd1), trace := trace wd1 @ [UploadBatch ?b2]\<rparr>"
  from assms(4) sv obtain x where x: "service wd1 (length (trace wd1)) = Response x"
    by metis
  have nd: "\<not> deadline wd1 (length (trace wd1))" using assms(3) dl by simp
  have "Finalize (w1, wd1) = flushUpdates (?w2, wd1)"
    using nf by (simp add: Finalize_def addUploadRequest_def Let_def)
  also have "\<dots> = (None, (?w3, ?wd3))"
    using nd x by (rule flushUpdates_accepted)
  finally have fin: "Finalize (w1, wd1) = (None, (?w3, ?wd3))" .
  have "Suc 150 = (151::nat)" by simp
  then have r151: "replicate 151 (None::error option) = None # replicate 150 None"
    using replicate_Suc[of 150 "None::error option"] by simp
  have all: "perform_all (map (\<lambda>c. Call_WriteConfiguration (Some c)) cs @ [Call_Finalize]) (w, wd) =
      Inr (replicate 151 None, (?w3, ?wd3))"
    using assms(1)
    by (simp add: perform_all_append perform_all_configurations[OF assms(2)] run fin
        replicate_append_same r151)
  have "trace ?wd3 = trace wd @ [UploadBatch b1, UploadBatch ?b2]"
    by (simp add: tr bs)
  moreover have "ub_UploadRequests ?b2 = map ?req (drop 100 cs) @ [finalizeRequest]"
    by (simp add: rest')
  moreover have "length (ub_UploadRequests b1) = 100" "length (ub_UploadRequests ?b2) = 51"
    using assms(1) by (simp_all add: b1' rest')
  moreover have "updates ?w3 = []" "finalized ?w3" by simp_all
  moreover have "\<forall>r. addUploadRequest r (?w3, ?wd3) = (Some (AfterFinalized r), (?w3, ?wd3))"
    by (simp add: addUploadRequest_finalized)
  ultimately show ?thesis
    using all b1' by blast
qed

theorem hundred_fifty_then_finalize_witness:
  "\<exists>w' wd' b1 b2.
      perform_all (map (\<lambda>c. Call_WriteConfiguration (Some c)) (replicate 150 default_configuration)
          @ [Call_Finalize]) (opened_writer, scripted_world [] (Response [])) =
        Inr (replicate 151 None, (w', wd'))
    \<and> trace wd' = [UploadBatch b1, UploadBatch b2]
    \<and> ub_UploadRequests b1 = replicate 100 default_request
    \<and> ub_UploadRequests b2 = replicate 50 default_request @ [finalizeRequest]
    \<and> updates w' = [] \<and> finalized w'
    \<and> addUploadRequest default_request (w', wd') =
        (Some (AfterFinalized default_request), (w', wd'))"
proof -
  let ?wd = "scripted_world [] (Response [])"
  have 1: "length (replicate 150 default_configuration) = 150" by simp
  have 2: "\<forall>c\<in>set (replicate 150 default_configuration). cfg_Id c \<noteq> None"
    by (simp add: default_configuration_def)
  have 3: "\<forall>n. \<not> deadline ?wd n" by simp
  have 4: "\<forall>n. \<exists>x. service ?wd n = Response x" by simp
  have 5: "updates opened_writer = []" by (simp add: opened_writer_def)
  have 6: "\<not> finalized opened_writer" by (simp add: opened_writer_def)
  have req: "projr (createConfigurationUploadRequest (Some default_configuration)) =
      default_request"
    by (simp add: createConfigurationUploadRequest_def default_configuration_def
        default_request_def)
  from hundred_fifty_then_finalize[OF 1 2 3 4 5 6] obtain w' wd' b1 b2 where
    "perform_all (map (\<lambda>c. Call_WriteConfiguration (Some c)) (replicate 150 default_configuration)
          @ [Call_Finalize]) (opened_writer, ?wd) = Inr (replicate 151 None, (w', wd'))"
    "trace wd' = trace ?wd @ [UploadBatch b1, UploadBatch b2]"
    "ub_UploadRequests b1 = map (\<lambda>c. projr (createConfigurationUploadRequest (Some c)))
        (take 100 (replicate 150 default_configuration))"
    "ub_UploadRequests b2 = map (\<lambda>c. projr (createConfigurationUploadRequest (Some c)))
        (drop 100 (replicate 150 default_configuration)) @ [finalizeRequest]"
    "updates w' = []" "finalized w'"
    "\<forall>r. addUploadRequest r (w', wd') = (Some (AfterFinalized r), (w', wd'))"
    by blast
  then show ?thesis
    by (intro exI[of _ w'] exI[of _ wd'] exI[of _ b1] exI[of _ b2]) (simp add: req)
qed

end
